theory Spec2Isabelle
  imports Complex_Main "HOL-Library.Word"
begin

section \<open>torch\_tvm/compiler.cpp: data model\<close>

text \<open>
  The element types of \<^verbatim>\<open>at::ScalarType\<close> (the enumeration of the host tensor
  library) and the scalar types of the target representation that
  \<^verbatim>\<open>scalarTypeToTVMType\<close> produces: \<^verbatim>\<open>::tvm::Float(n)\<close>, \<^verbatim>\<open>::tvm::Int(n)\<close>,
  \<^verbatim>\<open>::tvm::UInt(n)\<close> and \<^verbatim>\<open>::tvm::Bool()\<close>.
\<close>

datatype ScalarType =
    kByte | kChar | kShort | kInt | kLong | kHalf | kFloat | kDouble
  | kComplexHalf | kComplexFloat | kComplexDouble | kBool
  | kQInt8 | kQUInt8 | kQInt32 | kBFloat16 | kUndefined

datatype DataType = tvm_Float nat | tvm_Int nat | tvm_UInt nat | tvm_Bool

text \<open>
  A floating-point number is modelled by the exact value it denotes: a finite
  value (a rational), an infinity or a NaN. The sign of zero is not represented.
  Doubles and floats share the type; a float is a value that
  \<open>static_cast_float\<close> returns.
\<close>

datatype fp = Finite rat | PosInf | NegInf | NaN

text \<open>
  A tensor of the host library, as far as \<^verbatim>\<open>run\<close> looks at it: its element
  type, its sizes and the address of its buffer.
\<close>

record Tensor =
  scalar_type :: ScalarType
  sizes :: "int list"
  data_ptr :: nat

datatype IValue =
    IDouble fp
  | IInt "64 word"
  | IBool bool
  | INone
  | IIntList "64 word list"
  | ITensor Tensor
  | IOther string

datatype DLDeviceType = kDLCPU | kDLGPU

record TVMContext =
  device_type :: DLDeviceType
  device_id :: int

text \<open>
  Every \<^verbatim>\<open>TORCH_CHECK\<close>, \<^verbatim>\<open>TORCH_INTERNAL_ASSERT\<close> and \<^verbatim>\<open>AT_ERROR\<close> of the file
  throws; each is one constructor here, named after the error kind it stands for.
\<close>

datatype error =
    UnsupportedTypeError ScalarType
      \<comment> \<open>\<^verbatim>\<open>"could not handle the type "\<close>, with the type\<close>
  | NotATensorError
      \<comment> \<open>\<^verbatim>\<open>toTensor()\<close> on a value that is no tensor\<close>
  | IncompleteTypeError
      \<comment> \<open>\<^verbatim>\<open>TORCH_INTERNAL_ASSERT\<close> on \<^verbatim>\<open>isCompleteTensor()\<close>\<close>
  | RangeError
      \<comment> \<open>the four \<^verbatim>\<open>TORCH_CHECK\<close>s against \<^verbatim>\<open>std::numeric_limits\<close>\<close>
  | UnsupportedConstantError
      \<comment> \<open>\<^verbatim>\<open>"Cannot convert value ... to Relay yet"\<close>\<close>
  | OperatorError string
      \<comment> \<open>whatever \<^verbatim>\<open>getOperator\<close> throws\<close>
  | UnresolvedOutputError
      \<comment> \<open>\<^verbatim>\<open>TORCH_INTERNAL_ASSERT\<close> that a subgraph output is in \<^verbatim>\<open>value_map\<close>\<close>
  | InternalConsistencyError nat nat
      \<comment> \<open>\<^verbatim>\<open>"Determined n free vars but only m inputs"\<close>\<close>
  | TranslationError error
      \<comment> \<open>\<^verbatim>\<open>"Pytorch TVM: fail to convert to relay, exception: "\<close>, with the cause\<close>
  | BuildError string
      \<comment> \<open>whatever the build module or the runtime's creation throws\<close>
  | RuntimeError string
      \<comment> \<open>whatever a function of the compiled runtime or the interpreter throws\<close>
  | BadFunctionCall
      \<comment> \<open>a call of a default-constructed \<^verbatim>\<open>PackedFunc\<close>\<close>
  | OutputCountMismatchError
      \<comment> \<open>\<^verbatim>\<open>"Compiled subgraph with mismatching num outputs"\<close>\<close>
  | MissingConstantError
      \<comment> \<open>\<^verbatim>\<open>TORCH_INTERNAL_ASSERT(optional_ivalue.has_value())\<close> in \<^verbatim>\<open>run\<close>\<close>
  | RegistryError string
      \<comment> \<open>\<^verbatim>\<open>TORCH_INTERNAL_ASSERT\<close> on a function looked up in the registry\<close>
  | MissingAttributeError string
      \<comment> \<open>\<^verbatim>\<open>node->g(attr::Subgraph)\<close> on a node without that attribute\<close>
  | StackUnderflowError
      \<comment> \<open>\<^verbatim>\<open>last(stack, n)\<close> on a stack of fewer than \<open>n\<close> values\<close>

section \<open>The type mapper\<close>

definition type_mapping :: "ScalarType \<rightharpoonup> DataType" where
  "type_mapping = [
     kFloat \<mapsto> tvm_Float 32,
     kDouble \<mapsto> tvm_Float 64,
     kInt \<mapsto> tvm_Int 32,
     kLong \<mapsto> tvm_Int 64,
     kBool \<mapsto> tvm_Bool,
     kChar \<mapsto> tvm_Int 8,
     kByte \<mapsto> tvm_UInt 8,
     kQInt8 \<mapsto> tvm_Int 8,
     kQUInt8 \<mapsto> tvm_UInt 8,
     kQInt32 \<mapsto> tvm_Int 32]"

definition scalarTypeToTVMType :: "ScalarType \<Rightarrow> error + DataType" where
  "scalarTypeToTVMType pt_type =
     (case type_mapping pt_type of
        None \<Rightarrow> Inl (UnsupportedTypeError pt_type)
      | Some t \<Rightarrow> Inr t)"

section \<open>The constant translator\<close>

text \<open>
  \<^verbatim>\<open>std::numeric_limits<float>::max()\<close> is \<open>(2 - 2^-23) * 2^127\<close>, and
  \<^verbatim>\<open>lowest()\<close> is its negation; the limits of \<^verbatim>\<open>int32_t\<close> are \<open>2^31 - 1\<close> and
  \<open>- 2^31\<close>.
\<close>

definition FLT_MAX :: rat where
  "FLT_MAX = 340282346638528859811704183484516925440"

definition INT32_MAX :: int where
  "INT32_MAX = 2147483647"

definition INT32_LOWEST :: int where
  "INT32_LOWEST = - 2147483648"

text \<open>The comparison \<^verbatim>\<open><=\<close> of IEEE 754: false whenever an operand is a NaN.\<close>

fun fp_le :: "fp \<Rightarrow> fp \<Rightarrow> bool" where
  "fp_le NaN _ = False"
| "fp_le _ NaN = False"
| "fp_le NegInf _ = True"
| "fp_le _ PosInf = True"
| "fp_le (Finite a) (Finite b) = (a \<le> b)"
| "fp_le PosInf _ = False"
| "fp_le _ NegInf = False"

text \<open>
  \<^verbatim>\<open>static_cast<float>(d)\<close> rounds to the nearest value of the 32-bit format, ties
  to even: 24 significant bits, exponents from \<open>-126\<close> (below it the subnormal
  spacing \<open>2^-149\<close>) to \<open>127\<close>, and an infinity beyond the largest finite value.
\<close>

fun find_exponent :: "nat \<Rightarrow> rat \<Rightarrow> int" where
  "find_exponent 0 a = - 126"
| "find_exponent (Suc n) a =
     (if 2 powi (int n - 125) \<le> a then int n - 125 else find_exponent n a)"

definition float_exponent :: "rat \<Rightarrow> int" where
  "float_exponent a = find_exponent 253 a"

definition round_half_even :: "rat \<Rightarrow> int" where
  "round_half_even q =
     (let f = \<lfloor>q\<rfloor>; r = q - of_int f
      in if r < 1 / 2 then f
         else if 1 / 2 < r then f + 1
         else if even f then f else f + 1)"

definition round_to_float :: "rat \<Rightarrow> rat" where
  "round_to_float a =
     (let u = 2 powi (float_exponent a - 23)
      in of_int (round_half_even (a / u)) * u)"

fun static_cast_float :: "fp \<Rightarrow> fp" where
  "static_cast_float (Finite x) =
     (let m = round_to_float \<bar>x\<bar>
      in if FLT_MAX < m then (if 0 < x then PosInf else NegInf)
         else Finite (sgn x * m))"
| "static_cast_float PosInf = PosInf"
| "static_cast_float NegInf = NegInf"
| "static_cast_float NaN = NaN"

text \<open>
  The scalar that \<^verbatim>\<open>NDArray::Empty({}, String2TVMType(dtype), ctx)\<close> holds once
  its one element is written, and the expressions of the target representation.
  A variable node is identified by the node itself, not by its name: \<open>Var\<close>
  carries the identity as a number.
\<close>

datatype scalar = F32 fp | I32 "32 word" | B bool | U64 "64 word"

datatype NDArray = NDArray string TVMContext scalar

datatype TensorType = TensorType "int list" DataType

datatype Expr =
    Var nat string TensorType
  | Constant NDArray
  | Tuple "Expr list"
  | TupleGetItem Expr nat
  | Call string "Expr list"

definition int32_constant :: "TVMContext \<Rightarrow> 64 word \<Rightarrow> error + Expr" where
  "int32_constant ctx l =
     (if \<not> sint l \<le> INT32_MAX then Inl RangeError
      else if \<not> INT32_LOWEST \<le> sint l then Inl RangeError
      else Inr (Constant (NDArray ''int32'' ctx (I32 (ucast l)))))"

fun int32_constants :: "TVMContext \<Rightarrow> 64 word list \<Rightarrow> Expr list \<Rightarrow> error + Expr list" where
  "int32_constants ctx [] tuple_elems = Inr tuple_elems"
| "int32_constants ctx (elem # rest) tuple_elems =
     (case int32_constant ctx elem of
        Inl e \<Rightarrow> Inl e
      | Inr v \<Rightarrow> int32_constants ctx rest (tuple_elems @ [v]))"

text \<open>
  \<^verbatim>\<open>getNoneSentinel()\<close> is declared in \<^verbatim>\<open>operators.h\<close>; its value is a parameter.
\<close>

fun convertToRelay_IValue :: "64 word \<Rightarrow> IValue \<Rightarrow> TVMContext \<Rightarrow> error + Expr" where
  "convertToRelay_IValue sentinel (IDouble d) ctx =
     (if \<not> fp_le d (Finite FLT_MAX) then Inl RangeError
      else if \<not> fp_le (Finite (- FLT_MAX)) d then Inl RangeError
      else Inr (Constant (NDArray ''float32'' ctx (F32 (static_cast_float d)))))"
| "convertToRelay_IValue sentinel (IInt l) ctx = int32_constant ctx l"
| "convertToRelay_IValue sentinel (IBool b) ctx =
     Inr (Constant (NDArray ''bool'' ctx (B b)))"
| "convertToRelay_IValue sentinel INone ctx =
     Inr (Constant (NDArray ''uint64'' ctx (U64 sentinel)))"
| "convertToRelay_IValue sentinel (IIntList l) ctx =
     (case int32_constants ctx l [] of
        Inl e \<Rightarrow> Inl e
      | Inr tuple_elems \<Rightarrow> Inr (Tuple tuple_elems))"
| "convertToRelay_IValue sentinel _ ctx = Inl UnsupportedConstantError"

section \<open>The subgraph\<close>

text \<open>
  A \<^verbatim>\<open>Value*\<close> is an address. A graph is its inputs, its outputs and its nodes;
  what the translator asks of a value is its type (\<^verbatim>\<open>isCompleteTensor()\<close>,
  \<^verbatim>\<open>sizes()\<close>, \<^verbatim>\<open>scalarType()\<close>), the constant it holds if its node is a
  constant (\<^verbatim>\<open>toIValue\<close>), its name and its uses. \<^verbatim>\<open>inferTypeFrom\<close> changes the
  type of a value in place, so the graph is part of the state.
\<close>

type_synonym Value = nat

record Node =
  kind :: string
  n_inputs :: "Value list"
  n_outputs :: "Value list"

datatype TypePtr = CompleteTensorType ScalarType "int list" | OtherType

record Graph =
  g_inputs :: "Value list"
  g_outputs :: "Value list"
  g_nodes :: "Node list"
  g_type :: "Value \<Rightarrow> TypePtr"
  g_constant :: "Value \<rightharpoonup> IValue"
  g_debugName :: "Value \<Rightarrow> string"

definition toIValue :: "Graph \<Rightarrow> Value \<Rightarrow> IValue option" where
  "toIValue g val = g_constant g val"

definition inferTypeFrom :: "Graph \<Rightarrow> Value \<Rightarrow> Tensor \<Rightarrow> Graph" where
  "inferTypeFrom g val t =
     g\<lparr>g_type := (g_type g)(val := CompleteTensorType (scalar_type t) (sizes t))\<rparr>"

text \<open>
  The graph ends in a return node, which takes the outputs of the graph and has no
  output of its own; \<^verbatim>\<open>uses()\<close> has one entry for each place where a node takes
  the value.
\<close>

definition return_node :: "Graph \<Rightarrow> Node" where
  "return_node g = \<lparr>kind = ''prim::Return'', n_inputs = g_outputs g, n_outputs = []\<rparr>"

definition uses :: "Graph \<Rightarrow> Value \<Rightarrow> Node list" where
  "uses g val =
     concat (map (\<lambda>user. map (\<lambda>_. user) (filter (\<lambda>input. input = val) (n_inputs user)))
       (g_nodes g @ [return_node g]))"

section \<open>The placeholder translator\<close>

fun to_string :: "nat \<Rightarrow> string" where
  "to_string n =
     (if n < 10 then [char_of (48 + n)]
      else to_string (n div 10) @ [char_of (48 + n mod 10)])"

declare to_string.simps [simp del]

definition int32_cast :: "int \<Rightarrow> int" where
  "int32_cast sz = sint (word_of_int sz :: 32 word)"

text \<open>
  No value is translated twice in one pass; the variable node made for a value has
  the address of the value as its identity.
\<close>

definition convertToRelay_Value :: "Graph \<Rightarrow> Value \<Rightarrow> TVMContext \<Rightarrow> (error + Expr) \<times> Graph" where
  "convertToRelay_Value g val ctx =
     (case (case toIValue g val of
              None \<Rightarrow> Inr g
            | Some (ITensor t) \<Rightarrow> Inr (inferTypeFrom g val t)
            | Some _ \<Rightarrow> Inl NotATensorError) of
        Inl e \<Rightarrow> (Inl e, g)
      | Inr g' \<Rightarrow>
          (case g_type g' val of
             CompleteTensorType pt_type pt_sizes \<Rightarrow>
               (case scalarTypeToTVMType pt_type of
                  Inl e \<Rightarrow> (Inl e, g')
                | Inr dtype \<Rightarrow>
                    (Inr (Var val (g_debugName g' val @ to_string val)
                            (TensorType (map int32_cast pt_sizes) dtype)), g'))
           | OtherType \<Rightarrow> (Inl IncompleteTypeError, g')))"

section \<open>The graph translator\<close>

datatype Function = Function "Expr list" Expr

text \<open>
  \<^verbatim>\<open>tvm::relay::FreeVars\<close>: the variables of an expression, each once. The
  expressions here bind no variable, so every variable is free.
\<close>

fun all_vars :: "Expr \<Rightarrow> Expr list" where
  "all_vars (Var i n t) = [Var i n t]"
| "all_vars (Constant c) = []"
| "all_vars (Tuple es) = concat (map all_vars es)"
| "all_vars (TupleGetItem e i) = all_vars e"
| "all_vars (Call f es) = concat (map all_vars es)"

definition FreeVars :: "Expr \<Rightarrow> Expr list" where
  "FreeVars e = remdups (all_vars e)"

text \<open>What \<^verbatim>\<open>operators.h\<close> declares: the operator table and the sentinel for none.\<close>

record operators =
  getOperator :: "Node \<Rightarrow> Expr list \<Rightarrow> error + Expr"
  getNoneSentinel :: "64 word"

text \<open>
  The state of one pass: the graph (whose types the pass may set), the local
  \<^verbatim>\<open>value_map\<close> and \<^verbatim>\<open>input_vars\<close>, and the vector that the argument
  \<^verbatim>\<open>input_values\<close> points to (\<open>None\<close> for a null pointer). The vector is the
  caller's: what the pass has appended stays there when the pass throws.
\<close>

record pass =
  p_graph :: Graph
  value_map :: "Value \<rightharpoonup> Expr"
  input_vars :: "Expr list"
  p_input_values :: "Value list option"

definition emplace_back :: "Value \<Rightarrow> Value list option \<Rightarrow> Value list option" where
  "emplace_back val vs = map_option (\<lambda>l. l @ [val]) vs"

text \<open>The declared inputs of the subgraph (the first loop).\<close>

fun convert_inputs :: "TVMContext \<Rightarrow> Value list \<Rightarrow> pass \<Rightarrow> (error + unit) \<times> pass" where
  "convert_inputs ctx [] s = (Inr (), s)"
| "convert_inputs ctx (input # rest) s =
     (case g_type (p_graph s) input of
        OtherType \<Rightarrow> (Inl IncompleteTypeError, s)
      | CompleteTensorType _ _ \<Rightarrow>
          (case convertToRelay_Value (p_graph s) input ctx of
             (Inl e, g') \<Rightarrow> (Inl e, s\<lparr>p_graph := g'\<rparr>)
           | (Inr v, g') \<Rightarrow>
               convert_inputs ctx rest
                 (s\<lparr>p_graph := g',
                    input_vars := input_vars s @ [v],
                    p_input_values := emplace_back input (p_input_values s),
                    value_map := (value_map s)(input \<mapsto> v)\<rparr>)))"

text \<open>
  The inputs of one user. The result is \<open>None\<close> when \<^verbatim>\<open>skip_user\<close> was set, and
  the \<^verbatim>\<open>relay_inputs\<close> otherwise.
\<close>

fun resolve_inputs ::
  "operators \<Rightarrow> TVMContext \<Rightarrow> Value list \<Rightarrow> Expr list \<Rightarrow> pass \<Rightarrow> (error + Expr list option) \<times> pass"
where
  "resolve_inputs ops ctx [] relay_inputs s = (Inr (Some relay_inputs), s)"
| "resolve_inputs ops ctx (input # rest) relay_inputs s =
     (case value_map s input of
        Some e \<Rightarrow> resolve_inputs ops ctx rest (relay_inputs @ [e]) s
      | None \<Rightarrow>
          (case toIValue (p_graph s) input of
             None \<Rightarrow> (Inr None, s)
           | Some (ITensor t) \<Rightarrow>
               (let s1 = s\<lparr>p_input_values := emplace_back input (p_input_values s)\<rparr>
                in case convertToRelay_Value (p_graph s1) input ctx of
                     (Inl e, g') \<Rightarrow> (Inl e, s1\<lparr>p_graph := g'\<rparr>)
                   | (Inr input_var, g') \<Rightarrow>
                       resolve_inputs ops ctx rest (relay_inputs @ [input_var])
                         (s1\<lparr>p_graph := g',
                             input_vars := input_vars s1 @ [input_var],
                             value_map := (value_map s1)(input \<mapsto> input_var)\<rparr>))
           | Some iv \<Rightarrow>
               (case convertToRelay_IValue (getNoneSentinel ops) iv ctx of
                  Inl e \<Rightarrow> (Inl e, s)
                | Inr c \<Rightarrow>
                    resolve_inputs ops ctx rest (relay_inputs @ [c])
                      (s\<lparr>value_map := (value_map s)(input \<mapsto> c)\<rparr>))))"

text \<open>The outputs of a user with two or more outputs: one projection each.\<close>

fun bind_outputs :: "Expr \<Rightarrow> Value list \<Rightarrow> nat \<Rightarrow> (Value \<rightharpoonup> Expr) \<Rightarrow> (Value \<rightharpoonup> Expr)" where
  "bind_outputs tuple [] index m = m"
| "bind_outputs tuple (output # rest) index m =
     bind_outputs tuple rest (index + 1) (m(output \<mapsto> TupleGetItem tuple index))"

text \<open>One user of a value of the frontier (the body of the loop over the uses).\<close>

definition convert_user ::
  "operators \<Rightarrow> TVMContext \<Rightarrow> Node \<Rightarrow> Value list \<Rightarrow> pass \<Rightarrow> (error + Value list) \<times> pass"
where
  "convert_user ops ctx user new_frontier s =
     (case resolve_inputs ops ctx (n_inputs user) [] s of
        (Inl e, s') \<Rightarrow> (Inl e, s')
      | (Inr None, s') \<Rightarrow> (Inr new_frontier, s')
      | (Inr (Some relay_inputs), s') \<Rightarrow>
          (if length (n_outputs user) < 1 then (Inr new_frontier, s')
           else
             (case getOperator ops user relay_inputs of
                Inl e \<Rightarrow> (Inl e, s')
              | Inr r \<Rightarrow>
                  (if length (n_outputs user) = 1
                   then (Inr (new_frontier @ [hd (n_outputs user)]),
                         s'\<lparr>value_map := (value_map s')(hd (n_outputs user) \<mapsto> r)\<rparr>)
                   else (Inr (new_frontier @ n_outputs user),
                         s'\<lparr>value_map := bind_outputs r (n_outputs user) 0 (value_map s')\<rparr>)))))"

fun convert_users ::
  "operators \<Rightarrow> TVMContext \<Rightarrow> Node list \<Rightarrow> Value list \<Rightarrow> pass \<Rightarrow> (error + Value list) \<times> pass"
where
  "convert_users ops ctx [] new_frontier s = (Inr new_frontier, s)"
| "convert_users ops ctx (user # rest) new_frontier s =
     (case convert_user ops ctx user new_frontier s of
        (Inl e, s') \<Rightarrow> (Inl e, s')
      | (Inr new_frontier', s') \<Rightarrow> convert_users ops ctx rest new_frontier' s')"

fun convert_frontier ::
  "operators \<Rightarrow> TVMContext \<Rightarrow> Value list \<Rightarrow> Value list \<Rightarrow> pass \<Rightarrow> (error + Value list) \<times> pass"
where
  "convert_frontier ops ctx [] new_frontier s = (Inr new_frontier, s)"
| "convert_frontier ops ctx (val # rest) new_frontier s =
     (case convert_users ops ctx (uses (p_graph s) val) new_frontier s of
        (Inl e, s') \<Rightarrow> (Inl e, s')
      | (Inr new_frontier', s') \<Rightarrow> convert_frontier ops ctx rest new_frontier' s')"

text \<open>
  The loop \<^verbatim>\<open>while (frontier.size())\<close>. On a graph with a cycle it does not end;
  \<open>None\<close> is that.
\<close>

partial_function (option) convert_frontiers ::
  "operators \<Rightarrow> TVMContext \<Rightarrow> Value list \<Rightarrow> pass \<Rightarrow> ((error + unit) \<times> pass) option"
where
  "convert_frontiers ops ctx frontier s =
     (if frontier = [] then Some (Inr (), s)
      else
        (case convert_frontier ops ctx frontier [] s of
           (Inl e, s') \<Rightarrow> Some (Inl e, s')
         | (Inr new_frontier, s') \<Rightarrow> convert_frontiers ops ctx new_frontier s'))"

declare convert_frontiers.simps [code]

text \<open>The fields of the output tuple, the check of the free variables, the function.\<close>

fun output_fields :: "(Value \<rightharpoonup> Expr) \<Rightarrow> Value list \<Rightarrow> Expr list \<Rightarrow> error + Expr list" where
  "output_fields m [] flds = Inr flds"
| "output_fields m (sg_output # rest) flds =
     (case m sg_output of
        None \<Rightarrow> Inl UnresolvedOutputError
      | Some e \<Rightarrow> output_fields m rest (flds @ [e]))"

definition make_function :: "pass \<Rightarrow> error + Function" where
  "make_function s =
     (case output_fields (value_map s) (g_outputs (p_graph s)) [] of
        Inl e \<Rightarrow> Inl e
      | Inr flds \<Rightarrow>
          (let output = Tuple flds; free_vars = FreeVars output
           in if \<not> length free_vars \<le> length (input_vars s)
              then Inl (InternalConsistencyError (length free_vars) (length (input_vars s)))
              else Inr (Function (input_vars s) output)))"

text \<open>
  \<^verbatim>\<open>convertToRelay(subgraph, ctx, input_values)\<close>. The result is the function or
  the error, with the graph and the caller's vector as the pass leaves them.
\<close>

definition convertToRelay_Graph ::
  "operators \<Rightarrow> Graph \<Rightarrow> TVMContext \<Rightarrow> Value list option \<Rightarrow>
     ((error + Function) \<times> Graph \<times> Value list option) option"
where
  "convertToRelay_Graph ops subgraph ctx input_values_arg =
     (let s0 = \<lparr>p_graph = subgraph, value_map = Map.empty, input_vars = [],
                p_input_values = input_values_arg\<rparr>
      in case convert_inputs ctx (g_inputs subgraph) s0 of
           (Inl e, s1) \<Rightarrow> Some (Inl e, p_graph s1, p_input_values s1)
         | (Inr _, s1) \<Rightarrow>
             (case convert_frontiers ops ctx (g_inputs subgraph) s1 of
                None \<Rightarrow> None
              | Some (Inl e, s2) \<Rightarrow> Some (Inl e, p_graph s2, p_input_values s2)
              | Some (Inr _, s2) \<Rightarrow> Some (make_function s2, p_graph s2, p_input_values s2)))"

section \<open>The compiled unit\<close>

text \<open>
  A \<^verbatim>\<open>PackedFunc\<close> of a cache entry is either default-constructed (\<open>None\<close>) or a
  function of a runtime module, which it shares with the other functions taken
  from that module: \<open>Some h\<close>, with \<open>h\<close> the place of the module in the store of
  the modules created so far.
\<close>

type_synonym PackedFunc = "nat option"

record TVMObject =
  kernel :: PackedFunc
  set_input :: PackedFunc
  set_input_zero_copy :: PackedFunc
  get_output :: PackedFunc
  input_values :: "Value list"

definition default_TVMObject :: TVMObject where
  "default_TVMObject =
     \<lparr>kernel = None, set_input = None, set_input_zero_copy = None, get_output = None,
      input_values = []\<rparr>"

text \<open>
  The fields of \<^verbatim>\<open>TVMCompiler\<close>; a member \<^verbatim>\<open>name_\<close> of the class is the field
  \<open>m_name\<close>. The handle \<^verbatim>\<open>build_mod_\<close> of the build module
  has no state of its own here: the build is a function of the externals below.
  The key of the cache is a \<^verbatim>\<open>CompleteArgumentSpec\<close>.
\<close>

record 'k TVMCompiler =
  m_opt_level :: int
  m_strict :: bool
  m_device_type :: string
  m_device :: string
  m_host :: string
  m_ctx :: TVMContext
  m_subgraph :: Graph
  m_cache :: "'k \<rightharpoonup> TVMObject"

text \<open>
  The constructor. The node gives its subgraph attribute (\<open>None\<close> when it has
  none, and \<^verbatim>\<open>node->g\<close> throws); \<open>registry\<close> tells which names the global
  registry of the target knows.
\<close>

definition TVMCompiler_new ::
  "(string \<Rightarrow> bool) \<Rightarrow> Graph option \<Rightarrow> int \<Rightarrow> bool \<Rightarrow> string \<Rightarrow> string \<Rightarrow> string \<Rightarrow>
     error + 'k TVMCompiler"
where
  "TVMCompiler_new registry node_subgraph opt_level strict device_type' device host =
     (let ctx = \<lparr>device_type = (if device_type' = ''gpu'' then kDLGPU else kDLCPU),
                 device_id = 0\<rparr>
      in case node_subgraph of
           None \<Rightarrow> Inl (MissingAttributeError ''Subgraph'')
         | Some g \<Rightarrow>
             (if \<not> registry ''relay.build_module._BuildModule''
              then Inl (RegistryError ''relay.build_module._BuildModule'')
              else Inr \<lparr>m_opt_level = opt_level, m_strict = strict,
                        m_device_type = device_type', m_device = device, m_host = host,
                        m_ctx = ctx, m_subgraph = g, m_cache = Map.empty\<rparr>))"

section \<open>The execution engine\<close>

text \<open>
  What \<^verbatim>\<open>run\<close> calls outside this file: the signature of the inputs, the
  interpreter, the build module (\<^verbatim>\<open>build\<close>, \<^verbatim>\<open>get_graph_json\<close> and
  \<^verbatim>\<open>get_module\<close> together), the creation of the graph runtime and its five
  functions, and the address of the buffer that \<^verbatim>\<open>Tensor::to\<close> allocates when it
  has to convert. \<open>'l\<close> is what a build yields, \<open>'m\<close> the state of a runtime module.
\<close>

record ('k, 'l, 'm) externals =
  CompleteArgumentSpec :: "IValue list \<Rightarrow> 'k"
  interpreter_run :: "Graph \<Rightarrow> IValue list \<Rightarrow> (error + unit) \<times> IValue list"
  registry_get :: "string \<Rightarrow> bool"
  relay_build :: "Function \<Rightarrow> DLDeviceType \<Rightarrow> string \<Rightarrow> string \<Rightarrow> error + 'l"
  graph_runtime_create :: "'l \<Rightarrow> DLDeviceType \<Rightarrow> int \<Rightarrow> error + 'm"
  module_set_input :: "'m \<Rightarrow> nat \<Rightarrow> Tensor \<Rightarrow> error + 'm"
  module_set_input_zero_copy :: "'m \<Rightarrow> nat \<Rightarrow> Tensor \<Rightarrow> error + 'm"
  module_run :: "'m \<Rightarrow> error + 'm"
  module_get_output :: "'m \<Rightarrow> nat \<Rightarrow> error + Tensor"
  module_get_num_outputs :: "'m \<Rightarrow> int"
  to_allocate :: "Tensor \<Rightarrow> nat"

text \<open>
  The calls that leave the compiled unit, in the order in which they are made.
\<close>

datatype event =
    ConvertToRelay
  | Interpreter
  | Build
  | SetInput nat Tensor
  | SetInputZeroCopy nat Tensor
  | Kernel
  | GetOutput nat

record ('k, 'm) world =
  this :: "'k TVMCompiler"
  modules :: "'m list"
  trace :: "event list"

definition log_event :: "event \<Rightarrow> ('k, 'm) world \<Rightarrow> ('k, 'm) world" where
  "log_event ev w = w\<lparr>trace := trace w @ [ev]\<rparr>"

definition kAlignment :: nat where
  "kAlignment = 64"

text \<open>\<^verbatim>\<open>tensor.to(at::kFloat)\<close>: the tensor itself when it has that type already.\<close>

definition Tensor_to :: "(Tensor \<Rightarrow> nat) \<Rightarrow> Tensor \<Rightarrow> ScalarType \<Rightarrow> Tensor" where
  "Tensor_to alloc t st =
     (if scalar_type t = st then t else t\<lparr>scalar_type := st, data_ptr := alloc t\<rparr>)"

text \<open>
  A call of a function of a cache entry: \<^verbatim>\<open>std::bad_function_call\<close> when the
  function is default-constructed; otherwise the call is made, and changes the
  module it belongs to.
\<close>

definition call_module ::
  "PackedFunc \<Rightarrow> event \<Rightarrow> ('m \<Rightarrow> error + 'm) \<Rightarrow> ('k, 'm) world \<Rightarrow> (error + unit) \<times> ('k, 'm) world"
where
  "call_module f ev op w =
     (case f of
        None \<Rightarrow> (Inl BadFunctionCall, w)
      | Some h \<Rightarrow>
          (if \<not> h < length (modules w) then (Inl BadFunctionCall, w)
           else
             (let w1 = log_event ev w
              in case op (modules w1 ! h) of
                   Inl e \<Rightarrow> (Inl e, w1)
                 | Inr m' \<Rightarrow> (Inr (), w1\<lparr>modules := (modules w1)[h := m']\<rparr>))))"

text \<open>
  \<^verbatim>\<open>last(stack, n)\<close> and \<^verbatim>\<open>drop(stack, n)\<close> of the interpreter's stack, whose top
  is the end of the list.
\<close>

definition last_n :: "IValue list \<Rightarrow> nat \<Rightarrow> IValue list" where
  "last_n stack n = drop (length stack - n) stack"

definition drop_n :: "IValue list \<Rightarrow> nat \<Rightarrow> IValue list" where
  "drop_n stack n = take (length stack - n) stack"

text \<open>
  \<^verbatim>\<open>kv.first->inferTypeFrom(kv.second.toTensor())\<close> for the entries of
  \<^verbatim>\<open>value_to_ivalue\<close>, here in the order of the declared inputs.
\<close>

fun infer_input_types :: "(Value \<rightharpoonup> IValue) \<Rightarrow> Value list \<Rightarrow> Graph \<Rightarrow> (error + unit) \<times> Graph" where
  "infer_input_types m [] g = (Inr (), g)"
| "infer_input_types m (val # rest) g =
     (case m val of
        Some (ITensor t) \<Rightarrow> infer_input_types m rest (inferTypeFrom g val t)
      | _ \<Rightarrow> (Inl NotATensorError, g))"

text \<open>
  The block of the cache miss. Its result tells how \<^verbatim>\<open>run\<close> goes on: it throws,
  it has returned (after the interpreter), or it continues with the binding.
\<close>

datatype outcome = Throw error | Return | Continue

definition set_entry :: "'k \<Rightarrow> (TVMObject \<Rightarrow> TVMObject) \<Rightarrow> ('k, 'm) world \<Rightarrow> ('k, 'm) world" where
  "set_entry spec f w =
     w\<lparr>this := (this w)\<lparr>m_cache :=
          (m_cache (this w))(spec \<mapsto>
             f (case m_cache (this w) spec of None \<Rightarrow> default_TVMObject | Some obj \<Rightarrow> obj))\<rparr>\<rparr>"

definition set_subgraph :: "Graph \<Rightarrow> ('k, 'm) world \<Rightarrow> ('k, 'm) world" where
  "set_subgraph g w = w\<lparr>this := (this w)\<lparr>m_subgraph := g\<rparr>\<rparr>"

definition build_entry ::
  "('k, 'l, 'm) externals \<Rightarrow> 'k \<Rightarrow> Function \<Rightarrow> ('k, 'm) world \<Rightarrow> outcome \<times> ('k, 'm) world"
where
  "build_entry ext spec tvm_func w =
     (let c = this w; w1 = log_event Build w
      in case relay_build ext tvm_func (device_type (m_ctx c)) (m_device c) (m_host c) of
           Inl e \<Rightarrow> (Throw e, w1)
         | Inr lib \<Rightarrow>
             (if \<not> registry_get ext ''tvm.graph_runtime.create''
              then (Throw (RegistryError ''tvm.graph_runtime.create''), w1)
              else
                (case graph_runtime_create ext lib (device_type (m_ctx c)) (device_id (m_ctx c)) of
                   Inl e \<Rightarrow> (Throw e, w1)
                 | Inr run_mod \<Rightarrow>
                     (let h = length (modules w1);
                          w2 = w1\<lparr>modules := modules w1 @ [run_mod]\<rparr>;
                          w3 = set_entry spec
                                 (\<lambda>obj. obj\<lparr>set_input := Some h, set_input_zero_copy := Some h,
                                             kernel := Some h, get_output := Some h\<rparr>) w2;
                          n = module_get_num_outputs ext run_mod
                      in if int (length (g_outputs (m_subgraph c))) \<noteq> n
                         then (Throw OutputCountMismatchError, w3)
                         else (Continue, w3)))))"

definition compile_entry ::
  "operators \<Rightarrow> ('k, 'l, 'm) externals \<Rightarrow> 'k \<Rightarrow> (Value \<rightharpoonup> IValue) \<Rightarrow> ('k, 'm) world \<Rightarrow> IValue list \<Rightarrow>
     (outcome \<times> ('k, 'm) world \<times> IValue list) option"
where
  "compile_entry ops ext spec value_to_ivalue w stack =
     (case infer_input_types value_to_ivalue (remdups (g_inputs (m_subgraph (this w))))
             (m_subgraph (this w)) of
        (Inl e, g) \<Rightarrow> Some (Throw e, set_subgraph g w, stack)
      | (Inr _, g) \<Rightarrow>
          (let w1 = set_entry spec (\<lambda>obj. obj) (set_subgraph g w);
               w2 = log_event ConvertToRelay w1
           in case convertToRelay_Graph ops g (m_ctx (this w2))
                     (Some (input_values (the (m_cache (this w2) spec)))) of
                None \<Rightarrow> None
              | Some (r, g', vs) \<Rightarrow>
                  (let w3 = set_entry spec (\<lambda>obj. obj\<lparr>input_values := the vs\<rparr>)
                              (set_subgraph g' w2)
                   in case r of
                        Inl e \<Rightarrow>
                          (if m_strict (this w3) then Some (Throw (TranslationError e), w3, stack)
                           else
                             (let w4 = log_event Interpreter w3
                              in case interpreter_run ext (m_subgraph (this w4)) stack of
                                   (Inl e', stack') \<Rightarrow> Some (Throw e', w4, stack')
                                 | (Inr _, stack') \<Rightarrow> Some (Return, w4, stack')))
                      | Inr tvm_func \<Rightarrow>
                          (case build_entry ext spec tvm_func w3 of
                             (out, w4) \<Rightarrow> Some (out, w4, stack)))))"

text \<open>The loop that binds the runtime inputs, from index \<open>i\<close> on.\<close>

fun bind_inputs ::
  "('k, 'l, 'm) externals \<Rightarrow> TVMObject \<Rightarrow> Graph \<Rightarrow> Value list \<Rightarrow> nat \<Rightarrow> (Value \<rightharpoonup> IValue) \<Rightarrow>
     ('k, 'm) world \<Rightarrow> (error + unit) \<times> ('k, 'm) world"
where
  "bind_inputs ext obj g [] i value_to_ivalue w = (Inr (), w)"
| "bind_inputs ext obj g (val # rest) i value_to_ivalue w =
     (case (case value_to_ivalue val of
              Some iv \<Rightarrow> Inr value_to_ivalue
            | None \<Rightarrow>
                (case toIValue g val of
                   None \<Rightarrow> Inl MissingConstantError
                 | Some iv \<Rightarrow> Inr (value_to_ivalue(val \<mapsto> iv)))) of
        Inl e \<Rightarrow> (Inl e, w)
      | Inr value_to_ivalue' \<Rightarrow>
          (case value_to_ivalue' val of
             Some (ITensor t) \<Rightarrow>
               (let tensor = Tensor_to (to_allocate ext) t kFloat
                in case (if data_ptr tensor mod kAlignment = 0
                         then call_module (set_input_zero_copy obj) (SetInputZeroCopy i tensor)
                                (\<lambda>m. module_set_input_zero_copy ext m i tensor) w
                         else call_module (set_input obj) (SetInput i tensor)
                                (\<lambda>m. module_set_input ext m i tensor) w) of
                     (Inl e, w') \<Rightarrow> (Inl e, w')
                   | (Inr _, w') \<Rightarrow> bind_inputs ext obj g rest (i + 1) value_to_ivalue' w')
           | _ \<Rightarrow> (Inl NotATensorError, w)))"

text \<open>The loop that pushes the outputs, from index \<open>i\<close> on.\<close>

fun push_outputs ::
  "('k, 'l, 'm) externals \<Rightarrow> TVMObject \<Rightarrow> Value list \<Rightarrow> nat \<Rightarrow> ('k, 'm) world \<Rightarrow> IValue list \<Rightarrow>
     (error + unit) \<times> ('k, 'm) world \<times> IValue list"
where
  "push_outputs ext obj [] i w stack = (Inr (), w, stack)"
| "push_outputs ext obj (output # rest) i w stack =
     (case get_output obj of
        None \<Rightarrow> (Inl BadFunctionCall, w, stack)
      | Some h \<Rightarrow>
          (if \<not> h < length (modules w) then (Inl BadFunctionCall, w, stack)
           else
             (let w1 = log_event (GetOutput i) w
              in case module_get_output ext (modules w1 ! h) i of
                   Inl e \<Rightarrow> (Inl e, w1, stack)
                 | Inr ret_val \<Rightarrow> push_outputs ext obj rest (i + 1) w1 (stack @ [ITensor ret_val]))))"

text \<open>What \<^verbatim>\<open>run\<close> does once the cache has the entry.\<close>

definition execute_entry ::
  "('k, 'l, 'm) externals \<Rightarrow> 'k \<Rightarrow> (Value \<rightharpoonup> IValue) \<Rightarrow> ('k, 'm) world \<Rightarrow> IValue list \<Rightarrow>
     (error + unit) \<times> ('k, 'm) world \<times> IValue list"
where
  "execute_entry ext spec value_to_ivalue w stack =
     (let obj = the (m_cache (this w) spec); g = m_subgraph (this w)
      in case bind_inputs ext obj g (input_values obj) 0 value_to_ivalue w of
           (Inl e, w1) \<Rightarrow> (Inl e, w1, stack)
         | (Inr _, w1) \<Rightarrow>
             (case call_module (kernel obj) Kernel (module_run ext) w1 of
                (Inl e, w2) \<Rightarrow> (Inl e, w2, stack)
              | (Inr _, w2) \<Rightarrow>
                  push_outputs ext obj (g_outputs g) 0 w2 (drop_n stack (length (g_inputs g)))))"

text \<open>The first loop of \<^verbatim>\<open>run\<close>: the declared inputs take the values of the stack.\<close>

definition bind_stack_inputs :: "Graph \<Rightarrow> IValue list \<Rightarrow> (Value \<rightharpoonup> IValue)" where
  "bind_stack_inputs g inputs =
     fold (\<lambda>(val, iv) m. m(val \<mapsto> iv)) (zip (g_inputs g) inputs) Map.empty"

text \<open>
  \<^verbatim>\<open>TVMCompiler::run\<close>. The result is \<open>None\<close> when the translation does not end.
  \<^verbatim>\<open>last(stack, n)\<close> on a shorter stack has no defined behaviour; it is an error
  of its own here.
\<close>

definition run ::
  "operators \<Rightarrow> ('k, 'l, 'm) externals \<Rightarrow> ('k, 'm) world \<Rightarrow> IValue list \<Rightarrow>
     ((error + unit) \<times> ('k, 'm) world \<times> IValue list) option"
where
  "run ops ext w stack =
     (let g = m_subgraph (this w); num_inputs = length (g_inputs g)
      in if length stack < num_inputs then Some (Inl StackUnderflowError, w, stack)
         else
           (let inputs = last_n stack num_inputs;
                value_to_ivalue = bind_stack_inputs g inputs;
                spec = CompleteArgumentSpec ext inputs
            in if m_cache (this w) spec = None
               then
                 (case compile_entry ops ext spec value_to_ivalue w stack of
                    None \<Rightarrow> None
                  | Some (Throw e, w', stack') \<Rightarrow> Some (Inl e, w', stack')
                  | Some (Return, w', stack') \<Rightarrow> Some (Inr (), w', stack')
                  | Some (Continue, w', stack') \<Rightarrow>
                      Some (execute_entry ext spec value_to_ivalue w' stack'))
               else Some (execute_entry ext spec value_to_ivalue w stack)))"

section \<open>Notions used in the statements\<close>

text \<open>
  The translator: an operator table introduces no variable when the variables of
  what it returns are among those of its arguments; a pass has its variables
  bound when every expression of \<^verbatim>\<open>value_map\<close> mentions variables of
  \<^verbatim>\<open>input_vars\<close> only.
\<close>

definition no_new_vars :: "operators \<Rightarrow> bool" where
  "no_new_vars ops \<longleftrightarrow>
     (\<forall>node args r. getOperator ops node args = Inr r \<longrightarrow>
        set (all_vars r) \<subseteq> (\<Union>e\<in>set args. set (all_vars e)))"

definition vars_bound :: "pass \<Rightarrow> bool" where
  "vars_bound s \<longleftrightarrow> (\<forall>v e. value_map s v = Some e \<longrightarrow> set (all_vars e) \<subseteq> set (input_vars s))"

text \<open>
  An invocation of \<^verbatim>\<open>run\<close>: its inputs, its signature, the values bound to the
  declared inputs, and the translation it performs on a cache miss (\<open>None\<close> when
  an input is no tensor, so that no translation is attempted, or when the
  translation does not end); the state in which a translation leaves the unit.
\<close>

definition invocation_inputs :: "('k, 'm) world \<Rightarrow> IValue list \<Rightarrow> IValue list" where
  "invocation_inputs w stack = last_n stack (length (g_inputs (m_subgraph (this w))))"

definition invocation_spec :: "('k, 'l, 'm) externals \<Rightarrow> ('k, 'm) world \<Rightarrow> IValue list \<Rightarrow> 'k" where
  "invocation_spec ext w stack = CompleteArgumentSpec ext (invocation_inputs w stack)"

definition invocation_bindings :: "('k, 'm) world \<Rightarrow> IValue list \<Rightarrow> (Value \<rightharpoonup> IValue)" where
  "invocation_bindings w stack = bind_stack_inputs (m_subgraph (this w)) (invocation_inputs w stack)"

definition translation ::
  "operators \<Rightarrow> ('k, 'm) world \<Rightarrow> IValue list \<Rightarrow>
     ((error + Function) \<times> Graph \<times> Value list option) option"
where
  "translation ops w stack =
     (case infer_input_types (invocation_bindings w stack)
             (remdups (g_inputs (m_subgraph (this w)))) (m_subgraph (this w)) of
        (Inl e, g) \<Rightarrow> None
      | (Inr _, g) \<Rightarrow> convertToRelay_Graph ops g (m_ctx (this w)) (Some []))"

definition translated_world ::
  "'k \<Rightarrow> Graph \<Rightarrow> Value list option \<Rightarrow> ('k, 'm) world \<Rightarrow> ('k, 'm) world"
where
  "translated_world spec g vs w =
     w\<lparr>this := (this w)\<lparr>m_subgraph := g,
          m_cache := (m_cache (this w))(spec \<mapsto> default_TVMObject\<lparr>input_values := the vs\<rparr>)\<rparr>,
       trace := trace w @ [ConvertToRelay]\<rparr>"

text \<open>
  The binding: the value that \<^verbatim>\<open>run\<close> finds for a runtime input (the value
  bound to it, or else its constant), the call that binds a tensor at an index,
  the calls of the binding loop from index \<open>i\<close> on, and the calls that may
  follow them.
\<close>

definition resolve_input :: "Graph \<Rightarrow> (Value \<rightharpoonup> IValue) \<Rightarrow> Value \<Rightarrow> IValue option" where
  "resolve_input g value_to_ivalue val =
     (case value_to_ivalue val of Some iv \<Rightarrow> Some iv | None \<Rightarrow> toIValue g val)"

definition bind_event :: "('k, 'l, 'm) externals \<Rightarrow> nat \<Rightarrow> Tensor \<Rightarrow> event" where
  "bind_event ext i t =
     (let tensor = Tensor_to (to_allocate ext) t kFloat
      in if data_ptr tensor mod kAlignment = 0 then SetInputZeroCopy i tensor
         else SetInput i tensor)"

definition bind_trace ::
  "('k, 'l, 'm) externals \<Rightarrow> Graph \<Rightarrow> (Value \<rightharpoonup> IValue) \<Rightarrow> Value list \<Rightarrow> nat \<Rightarrow> event list \<Rightarrow> bool"
where
  "bind_trace ext g m vals i evs \<longleftrightarrow>
     length evs \<le> length vals \<and>
     (\<forall>j<length evs. \<exists>t. resolve_input g m (vals ! j) = Some (ITensor t) \<and>
         evs ! j = bind_event ext (i + j) t)"

definition tail_events :: "event list \<Rightarrow> bool" where
  "tail_events post \<longleftrightarrow> (\<forall>ev\<in>set post. ev = Kernel \<or> (\<exists>j. ev = GetOutput j))"

text \<open>The unit after an invocation (as it was, when the invocation does not return).\<close>

definition after_run ::
  "operators \<Rightarrow> ('k, 'l, 'm) externals \<Rightarrow> ('k, 'm) world \<Rightarrow> IValue list \<Rightarrow> ('k, 'm) world"
where
  "after_run ops ext w stack =
     (case run ops ext w stack of None \<Rightarrow> w | Some (r, w', stack') \<Rightarrow> w')"

section \<open>Example inputs\<close>

text \<open>
  A CPU context; an operator table that knows two elementwise operations; a
  subgraph \<open>relu\<close> then a second operation, whose kind is the argument; a
  signature that takes the element type and the sizes of every tensor; externals
  whose runtime module records what is bound to it; and two tensors of the same
  sizes, the second of another element type and at an address that is no multiple
  of the alignment.
\<close>

definition example_ctx :: TVMContext where
  "example_ctx = \<lparr>device_type = kDLCPU, device_id = 0\<rparr>"

definition example_ops :: operators where
  "example_ops =
     \<lparr>getOperator = (\<lambda>node relay_inputs.
        if kind node = ''aten::relu'' \<or> kind node = ''aten::tanh''
        then Inr (Call (kind node) relay_inputs)
        else Inl (OperatorError (kind node))),
      getNoneSentinel = 7\<rparr>"

text \<open>An operator table whose one entry yields a variable of its own.\<close>

definition example_unbound_ops :: operators where
  "example_unbound_ops =
     \<lparr>getOperator = (\<lambda>node relay_inputs. Inr (Var 99 ''w'' (TensorType [] (tvm_Float 32)))),
      getNoneSentinel = 7\<rparr>"

definition example_graph :: "string \<Rightarrow> Graph" where
  "example_graph k =
     \<lparr>g_inputs = [1], g_outputs = [3],
      g_nodes = [\<lparr>kind = ''aten::relu'', n_inputs = [1], n_outputs = [2]\<rparr>,
                 \<lparr>kind = k, n_inputs = [2], n_outputs = [3]\<rparr>],
      g_type = (\<lambda>_. OtherType), g_constant = Map.empty, g_debugName = (\<lambda>_. ''x'')\<rparr>"

type_synonym example_spec = "(ScalarType \<times> int list) option list"

definition example_signature :: "IValue list \<Rightarrow> example_spec" where
  "example_signature =
     map (\<lambda>iv. case iv of ITensor t \<Rightarrow> Some (scalar_type t, sizes t) | _ \<Rightarrow> None)"

definition example_ext :: "(example_spec, Function, (nat \<times> Tensor) list) externals" where
  "example_ext =
     \<lparr>CompleteArgumentSpec = example_signature,
      interpreter_run = (\<lambda>g stack.
        (Inr (), drop_n stack (length (g_inputs g)) @ map (\<lambda>_. INone) (g_outputs g))),
      registry_get = (\<lambda>_. True),
      relay_build = (\<lambda>f _ _ _. Inr f),
      graph_runtime_create = (\<lambda>_ _ _. Inr []),
      module_set_input = (\<lambda>m i t. Inr (m @ [(i, t)])),
      module_set_input_zero_copy = (\<lambda>m i t. Inr (m @ [(i, t)])),
      module_run = (\<lambda>m. Inr m),
      module_get_output = (\<lambda>m i. Inr (snd (hd m))),
      module_get_num_outputs = (\<lambda>m. 1),
      to_allocate = (\<lambda>t. data_ptr t + 1)\<rparr>"

definition example_world :: "bool \<Rightarrow> string \<Rightarrow> (example_spec, (nat \<times> Tensor) list) world" where
  "example_world strict k =
     \<lparr>this = \<lparr>m_opt_level = 2, m_strict = strict, m_device_type = ''cpu'',
              m_device = ''llvm'', m_host = ''llvm'', m_ctx = example_ctx,
              m_subgraph = example_graph k, m_cache = Map.empty\<rparr>,
      modules = [], trace = []\<rparr>"

definition example_tensor :: Tensor where
  "example_tensor = \<lparr>scalar_type = kFloat, sizes = [2, 2], data_ptr = 128\<rparr>"

definition example_long_tensor :: Tensor where
  "example_long_tensor = \<lparr>scalar_type = kLong, sizes = [2, 2], data_ptr = 128\<rparr>"

text \<open>
  The subgraph once its input has the type of the first tensor, and a pass state
  whose one output is an expression with a variable while no input was collected.
\<close>

definition example_typed_graph :: "string \<Rightarrow> Graph" where
  "example_typed_graph k = inferTypeFrom (example_graph k) 1 example_tensor"

text \<open>
  A tensor of the signature of the first at an address that is no multiple of the
  alignment, and a tensor of other sizes; the unit after an invocation with the
  first tensor, then with the second, then with the third.
\<close>

definition example_unaligned_tensor :: Tensor where
  "example_unaligned_tensor = \<lparr>scalar_type = kFloat, sizes = [2, 2], data_ptr = 200\<rparr>"

definition example_wide_tensor :: Tensor where
  "example_wide_tensor = \<lparr>scalar_type = kFloat, sizes = [4, 2], data_ptr = 256\<rparr>"

definition example_world1 :: "(example_spec, (nat \<times> Tensor) list) world" where
  "example_world1 =
     after_run example_ops example_ext (example_world False ''aten::tanh'')
       [ITensor example_tensor]"

definition example_world2 :: "(example_spec, (nat \<times> Tensor) list) world" where
  "example_world2 =
     after_run example_ops example_ext example_world1 [ITensor example_unaligned_tensor]"

definition example_world3 :: "(example_spec, (nat \<times> Tensor) list) world" where
  "example_world3 =
     after_run example_ops example_ext example_world2 [ITensor example_wide_tensor]"

definition example_pass :: pass where
  "example_pass =
     \<lparr>p_graph = example_typed_graph ''aten::tanh'',
      value_map = [3 \<mapsto> Var 99 ''w'' (TensorType [] (tvm_Float 32))],
      input_vars = [], p_input_values = None\<rparr>"

section \<open>The type mapper is a closed table\<close>

lemma scalarTypeToTVMType_cases:
  "scalarTypeToTVMType t =
     (case t of
        kFloat \<Rightarrow> Inr (tvm_Float 32) | kDouble \<Rightarrow> Inr (tvm_Float 64)
      | kInt \<Rightarrow> Inr (tvm_Int 32) | kLong \<Rightarrow> Inr (tvm_Int 64) | kBool \<Rightarrow> Inr tvm_Bool
      | kChar \<Rightarrow> Inr (tvm_Int 8) | kByte \<Rightarrow> Inr (tvm_UInt 8)
      | kQInt8 \<Rightarrow> Inr (tvm_Int 8) | kQUInt8 \<Rightarrow> Inr (tvm_UInt 8)
      | kQInt32 \<Rightarrow> Inr (tvm_Int 32)
      | _ \<Rightarrow> Inl (UnsupportedTypeError t))"
  by (cases t) (simp_all add: scalarTypeToTVMType_def type_mapping_def)

text \<open>
  C6. \<open>scalarTypeToTVMType\<close> returns a target type on exactly the element types
  float32, float64, int32, int64, bool, int8 and uint8 and the three quantized
  kinds, which go where the plain type of their width goes (qint8 as int8, quint8
  as uint8, qint32 as int32); on every other type it fails with the
  \<open>UnsupportedTypeError\<close> that carries the type, and returns no value.
\<close>

theorem scalarTypeToTVMType_closed:
  "scalarTypeToTVMType kFloat = Inr (tvm_Float 32) \<and>
   scalarTypeToTVMType kDouble = Inr (tvm_Float 64) \<and>
   scalarTypeToTVMType kInt = Inr (tvm_Int 32) \<and>
   scalarTypeToTVMType kLong = Inr (tvm_Int 64) \<and>
   scalarTypeToTVMType kBool = Inr tvm_Bool \<and>
   scalarTypeToTVMType kChar = Inr (tvm_Int 8) \<and>
   scalarTypeToTVMType kByte = Inr (tvm_UInt 8) \<and>
   scalarTypeToTVMType kQInt8 = scalarTypeToTVMType kChar \<and>
   scalarTypeToTVMType kQUInt8 = scalarTypeToTVMType kByte \<and>
   scalarTypeToTVMType kQInt32 = scalarTypeToTVMType kInt \<and>
   (t \<in> {kFloat, kDouble, kInt, kLong, kBool, kChar, kByte, kQInt8, kQUInt8, kQInt32}
      \<longrightarrow> (\<exists>d. scalarTypeToTVMType t = Inr d)) \<and>
   (t \<notin> {kFloat, kDouble, kInt, kLong, kBool, kChar, kByte, kQInt8, kQUInt8, kQInt32}
      \<longrightarrow> scalarTypeToTVMType t = Inl (UnsupportedTypeError t))"
  by (cases t) (simp_all add: scalarTypeToTVMType_cases)

theorem scalarTypeToTVMType_closed_witness:
  "kQInt8 \<in> {kFloat, kDouble, kInt, kLong, kBool, kChar, kByte, kQInt8, kQUInt8, kQInt32} \<and>
   (\<exists>d. scalarTypeToTVMType kQInt8 = Inr d) \<and>
   kHalf \<notin> {kFloat, kDouble, kInt, kLong, kBool, kChar, kByte, kQInt8, kQUInt8, kQInt32} \<and>
   scalarTypeToTVMType kHalf = Inl (UnsupportedTypeError kHalf)"
  using scalarTypeToTVMType_closed [of kQInt8] scalarTypeToTVMType_closed [of kHalf]
  by simp

section \<open>The constant translator narrows\<close>



lemma int32_constants_eq:
  "int32_constants ctx ls acc =
     (if \<forall>e\<in>set ls. INT32_LOWEST \<le> sint e \<and> sint e \<le> INT32_MAX
      then Inr (acc @ map (\<lambda>e. Constant (NDArray ''int32'' ctx (I32 (ucast e)))) ls)
      else Inl RangeError)"
  by (induction ls arbitrary: acc) (auto simp: int32_constant_def)











section \<open>The sentinel for none\<close>

text \<open>
  C8. A none constant becomes a scalar constant of element type uint64 that holds
  the sentinel; no other kind of constant becomes a constant of that element type
  or with a 64-bit unsigned value.
\<close>

theorem convertToRelay_IValue_none:
  "convertToRelay_IValue s INone ctx = Inr (Constant (NDArray ''uint64'' ctx (U64 s))) \<and>
   (v \<noteq> INone \<longrightarrow>
      (\<forall>dtype ctx' x. convertToRelay_IValue s v ctx = Inr (Constant (NDArray dtype ctx' x))
         \<longrightarrow> dtype \<noteq> ''uint64'' \<and> (\<forall>y. x \<noteq> U64 y)))"
  by (cases v) (auto simp: int32_constant_def split: sum.splits if_splits)

theorem convertToRelay_IValue_none_witness:
  "IBool True \<noteq> INone \<and>
   convertToRelay_IValue 7 (IBool True) example_ctx
     = Inr (Constant (NDArray ''bool'' example_ctx (B True))) \<and>
   ''bool'' \<noteq> ''uint64'' \<and> (\<forall>y. B True \<noteq> U64 y)"
  using convertToRelay_IValue_none [of 7 example_ctx "IBool True"]
  by simp

section \<open>The constructor\<close>

text \<open>
  C10. Whether the constructor fails does not depend on the string of the device
  kind (it fails when the node has no subgraph or the registry has no build
  module, and only then); the context it builds has the GPU device type for the
  string \<open>gpu\<close> and the CPU device type for every other string, and the device
  index 0.
\<close>

theorem TVMCompiler_new_device:
  "((\<exists>c. (TVMCompiler_new registry node lvl strict dt dev host :: error + 'k TVMCompiler) = Inr c)
      \<longleftrightarrow> node \<noteq> None \<and> registry ''relay.build_module._BuildModule'') \<and>
   ((TVMCompiler_new registry node lvl strict dt dev host :: error + 'k TVMCompiler) = Inr c \<longrightarrow>
      device_type (m_ctx c) = (if dt = ''gpu'' then kDLGPU else kDLCPU) \<and>
      device_id (m_ctx c) = 0 \<and> m_device_type c = dt)"
  by (auto simp: TVMCompiler_new_def split: option.splits)

theorem TVMCompiler_new_device_witness:
  "(\<exists>c. (TVMCompiler_new (\<lambda>_. True) (Some (example_graph ''aten::tanh'')) 2 False
            ''tpu'' ''llvm'' ''llvm'' :: error + example_spec TVMCompiler) = Inr c \<and>
         device_type (m_ctx c) = kDLCPU \<and> device_id (m_ctx c) = 0)"
proof -
  obtain c where c: "(TVMCompiler_new (\<lambda>_. True) (Some (example_graph ''aten::tanh'')) 2 False
            ''tpu'' ''llvm'' ''llvm'' :: error + example_spec TVMCompiler) = Inr c"
    by (simp add: TVMCompiler_new_def)
  with TVMCompiler_new_device [of "\<lambda>_. True" "Some (example_graph ''aten::tanh'')" 2 False
         "''tpu''" "''llvm''" "''llvm''" c]
  show ?thesis by simp
qed

section \<open>The check of the free variables\<close>

lemma convert_frontiers_invariant:
  assumes run: "convert_frontiers ops ctx fr s = Some (r, s')"
    and init: "I s"
    and step: "\<And>fr nf s r s'. I s \<Longrightarrow> convert_frontier ops ctx fr nf s = (r, s') \<Longrightarrow> I s'"
  shows "I s'"
proof -
  have "ops = ops \<longrightarrow> ctx = ctx \<longrightarrow> I s \<longrightarrow> I (snd (r, s'))"
  proof (rule convert_frontiers.raw_induct
      [where P = "\<lambda>ops' ctx' fr s y. ops' = ops \<longrightarrow> ctx' = ctx \<longrightarrow> I s \<longrightarrow> I (snd y)", OF _ run])
    fix cf ops' ctx' fr s y
    assume IH: "\<And>ops' ctx' fr s y. cf ops' ctx' fr s = Some y \<Longrightarrow>
                  ops' = ops \<longrightarrow> ctx' = ctx \<longrightarrow> I s \<longrightarrow> I (snd y)"
      and eq: "(if fr = [] then Some (Inr (), s)
                else case convert_frontier ops' ctx' fr [] s of
                       (Inl e, s') \<Rightarrow> Some (Inl e, s')
                     | (Inr new_frontier, s') \<Rightarrow> cf ops' ctx' new_frontier s') = Some y"
    show "ops' = ops \<longrightarrow> ctx' = ctx \<longrightarrow> I s \<longrightarrow> I (snd y)"
    proof (intro impI)
      assume o: "ops' = ops" and c: "ctx' = ctx" and i: "I s"
      show "I (snd y)"
      proof (cases "fr = []")
        case True
        with eq i show ?thesis by auto
      next
        case False
        obtain r1 s1 where st: "convert_frontier ops ctx fr [] s = (r1, s1)"
          by (cases "convert_frontier ops ctx fr [] s")
        from step [OF i st] have s1: "I s1" .
        show ?thesis
        proof (cases r1)
          case (Inl e)
          with eq False st o c s1 show ?thesis by auto
        next
          case (Inr nf)
          with eq False st o c have "cf ops ctx nf s1 = Some y" by auto
          from IH [OF this] s1 show ?thesis by simp
        qed
      qed
    qed
  qed
  with init show ?thesis by simp
qed

lemma convertToRelay_Value_Var:
  "convertToRelay_Value g val ctx = (Inr x, g') \<Longrightarrow> all_vars x = [x]"
  by (auto simp: convertToRelay_Value_def
      split: option.splits IValue.splits TypePtr.splits sum.splits)

lemma convertToRelay_IValue_closed:
  "convertToRelay_IValue sentinel iv ctx = Inr c \<Longrightarrow> all_vars c = []"
  by (cases iv) (auto simp: int32_constant_def int32_constants_eq split: if_splits)

lemma vars_bound_add_var:
  "vars_bound s \<Longrightarrow> all_vars x = [x] \<Longrightarrow>
   vars_bound (s\<lparr>p_graph := g, input_vars := input_vars s @ [x], p_input_values := vs,
                 value_map := (value_map s)(v \<mapsto> x)\<rparr>)"
  by (auto simp: vars_bound_def)

lemma vars_bound_frame [simp]:
  "vars_bound (s\<lparr>p_graph := g\<rparr>) = vars_bound s"
  "vars_bound (s\<lparr>p_input_values := vs\<rparr>) = vars_bound s"
  by (simp_all add: vars_bound_def)

lemma convert_inputs_vars:
  "convert_inputs ctx vals s = (r, s') \<Longrightarrow> vars_bound s \<Longrightarrow> vars_bound s'"
proof (induction vals arbitrary: s)
  case Nil
  then show ?case by simp
next
  case (Cons v vals)
  obtain r1 g1 where c: "convertToRelay_Value (p_graph s) v ctx = (r1, g1)"
    by (cases "convertToRelay_Value (p_graph s) v ctx")
  show ?case
  proof (cases "g_type (p_graph s) v")
    case OtherType
    with Cons.prems show ?thesis by auto
  next
    case (CompleteTensorType st sz)
    show ?thesis
    proof (cases r1)
      case (Inl e)
      with Cons.prems c CompleteTensorType show ?thesis by auto
    next
      case (Inr x)
      with c have "all_vars x = [x]" by (auto dest: convertToRelay_Value_Var)
      from vars_bound_add_var [OF Cons.prems(2) this] Cons.prems(1) c CompleteTensorType Inr
      show ?thesis by (auto intro!: Cons.IH)
    qed
  qed
qed

lemma resolve_inputs_vars:
  "resolve_inputs ops ctx vals acc s = (r, s') \<Longrightarrow> vars_bound s \<Longrightarrow>
   \<forall>e\<in>set acc. set (all_vars e) \<subseteq> set (input_vars s) \<Longrightarrow>
   vars_bound s' \<and> (\<forall>es. r = Inr (Some es) \<longrightarrow> (\<forall>e\<in>set es. set (all_vars e) \<subseteq> set (input_vars s')))"
proof (induction vals arbitrary: s acc)
  case Nil
  then show ?case by auto
next
  case (Cons v vals)
  show ?case
  proof (cases "value_map s v")
    case (Some e)
    with Cons.prems(2) have "set (all_vars e) \<subseteq> set (input_vars s)"
      unfolding vars_bound_def by blast
    with Cons.prems(3) have acc: "\<forall>e\<in>set (acc @ [e]). set (all_vars e) \<subseteq> set (input_vars s)"
      by simp
    have rec: "resolve_inputs ops ctx vals (acc @ [e]) s = (r, s')"
      using Cons.prems(1) Some by simp
    show ?thesis by (rule Cons.IH [OF rec Cons.prems(2) acc])
  next
    case None
    show ?thesis
    proof (cases "toIValue (p_graph s) v")
      case None
      with Cons.prems \<open>value_map s v = None\<close> show ?thesis by auto
    next
      case (Some iv)
      show ?thesis
      proof (cases "\<exists>t. iv = ITensor t")
        case True
        then obtain t where iv: "iv = ITensor t" by blast
        define s1 where "s1 = s\<lparr>p_input_values := emplace_back v (p_input_values s)\<rparr>"
        obtain r1 g1 where c: "convertToRelay_Value (p_graph s1) v ctx = (r1, g1)"
          by (cases "convertToRelay_Value (p_graph s1) v ctx")
        show ?thesis
        proof (cases r1)
          case (Inl e)
          with Cons.prems c \<open>value_map s v = None\<close> Some iv show ?thesis
            by (auto simp: s1_def Let_def)
        next
          case (Inr x)
          with c have x: "all_vars x = [x]" by (auto dest: convertToRelay_Value_Var)
          define s2 where "s2 = s1\<lparr>p_graph := g1, input_vars := input_vars s1 @ [x],
                             value_map := (value_map s1)(v \<mapsto> x)\<rparr>"
          have rec: "resolve_inputs ops ctx vals (acc @ [x]) s2 = (r, s')"
            using Cons.prems(1) c \<open>value_map s v = None\<close> Some iv Inr
            by (simp add: s1_def s2_def Let_def)
          have "vars_bound s2"
            using Cons.prems(2) x by (auto simp: vars_bound_def s2_def s1_def)
          moreover have "\<forall>e\<in>set (acc @ [x]). set (all_vars e) \<subseteq> set (input_vars s2)"
            using Cons.prems(3) x by (auto simp: s2_def s1_def)
          ultimately show ?thesis by (rule Cons.IH [OF rec])
        qed
      next
        case False
        show ?thesis
        proof (cases "convertToRelay_IValue (getNoneSentinel ops) iv ctx")
          case (Inl e)
          with Cons.prems \<open>value_map s v = None\<close> Some False show ?thesis
            by (cases iv) auto
        next
          case (Inr c)
          then have cl: "all_vars c = []" by (rule convertToRelay_IValue_closed)
          define s2 where "s2 = s\<lparr>value_map := (value_map s)(v \<mapsto> c)\<rparr>"
          have rec: "resolve_inputs ops ctx vals (acc @ [c]) s2 = (r, s')"
            using Cons.prems(1) \<open>value_map s v = None\<close> Some False Inr
            by (cases iv) (auto simp: s2_def)
          have "vars_bound s2"
            using Cons.prems(2) cl by (auto simp: vars_bound_def s2_def)
          moreover have "\<forall>e\<in>set (acc @ [c]). set (all_vars e) \<subseteq> set (input_vars s2)"
            using Cons.prems(3) cl by (auto simp: s2_def)
          ultimately show ?thesis by (rule Cons.IH [OF rec])
        qed
      qed
    qed
  qed
qed

lemma bind_outputs_cases:
  "bind_outputs tuple outs idx m v = Some e \<Longrightarrow> m v = Some e \<or> (\<exists>i. e = TupleGetItem tuple i)"
proof (induction outs arbitrary: idx m)
  case Nil
  then show ?case by simp
next
  case (Cons a outs)
  from Cons.prems have "bind_outputs tuple outs (idx + 1) (m(a \<mapsto> TupleGetItem tuple idx)) v = Some e"
    by simp
  from Cons.IH [OF this] show ?case by (auto split: if_splits)
qed

lemma convert_user_vars:
  assumes "convert_user ops ctx user nf s = (r, s')" and "no_new_vars ops" and "vars_bound s"
  shows "vars_bound s'"
proof -
  obtain r1 s1 where c: "resolve_inputs ops ctx (n_inputs user) [] s = (r1, s1)"
    by (cases "resolve_inputs ops ctx (n_inputs user) [] s")
  from resolve_inputs_vars [OF c assms(3)]
  have s1: "vars_bound s1"
    and es: "\<And>es. r1 = Inr (Some es) \<Longrightarrow> \<forall>e\<in>set es. set (all_vars e) \<subseteq> set (input_vars s1)"
    by auto
  show ?thesis
  proof (cases r1)
    case (Inl e)
    with assms(1) c s1 show ?thesis by (auto simp: convert_user_def)
  next
    case (Inr o1)
    show ?thesis
    proof (cases o1)
      case None
      with assms(1) c s1 Inr show ?thesis by (auto simp: convert_user_def)
    next
      case (Some relay_inputs)
      with Inr es have ri: "\<forall>e\<in>set relay_inputs. set (all_vars e) \<subseteq> set (input_vars s1)" by simp
      show ?thesis
      proof (cases "getOperator ops user relay_inputs")
        case (Inl e)
        with assms(1) c s1 Inr Some show ?thesis by (auto simp: convert_user_def split: if_splits)
      next
        case (Inr res)
        with assms(2) ri have res: "set (all_vars res) \<subseteq> set (input_vars s1)"
          by (fastforce simp: no_new_vars_def)
        have a: "vars_bound (s1\<lparr>value_map := (value_map s1)(x \<mapsto> res)\<rparr>)" for x
          using s1 res by (auto simp: vars_bound_def)
        have b: "vars_bound (s1\<lparr>value_map := bind_outputs res outs 0 (value_map s1)\<rparr>)" for outs
          using s1 res by (auto simp: vars_bound_def dest!: bind_outputs_cases)
        from assms(1) c \<open>r1 = Inr o1\<close> Some Inr s1 a b show ?thesis
          by (auto simp: convert_user_def split: if_splits)
      qed
    qed
  qed
qed

lemma convert_users_vars:
  "convert_users ops ctx users nf s = (r, s') \<Longrightarrow> no_new_vars ops \<Longrightarrow> vars_bound s \<Longrightarrow> vars_bound s'"
proof (induction users arbitrary: nf s)
  case Nil
  then show ?case by simp
next
  case (Cons u users)
  then show ?case
    by (auto split: prod.splits sum.splits dest: convert_user_vars)
qed

lemma convert_frontier_vars:
  "convert_frontier ops ctx fr nf s = (r, s') \<Longrightarrow> no_new_vars ops \<Longrightarrow> vars_bound s \<Longrightarrow> vars_bound s'"
proof (induction fr arbitrary: nf s)
  case Nil
  then show ?case by simp
next
  case (Cons v fr)
  then show ?case
    by (auto split: prod.splits sum.splits dest: convert_users_vars)
qed

lemma output_fields_ran:
  "output_fields m outs acc = Inr fl \<Longrightarrow> set fl \<subseteq> set acc \<union> ran m"
proof (induction outs arbitrary: acc)
  case Nil
  then show ?case by simp
next
  case (Cons out outs)
  then obtain e where e: "m out = Some e" and rec: "output_fields m outs (acc @ [e]) = Inr fl"
    by (auto split: option.splits)
  from Cons.IH [OF rec] e show ?case by (auto simp: ran_def)
qed

lemma make_function_cases:
  "make_function s = Inr f \<Longrightarrow>
     \<exists>fl. output_fields (value_map s) (g_outputs (p_graph s)) [] = Inr fl \<and>
          f = Function (input_vars s) (Tuple fl) \<and>
          length (FreeVars (Tuple fl)) \<le> length (input_vars s)"
  by (auto simp: make_function_def Let_def split: sum.splits if_splits)

lemma convertToRelay_Graph_Inr:
  assumes "convertToRelay_Graph ops g ctx vs = Some (Inr f, g', vs')"
  shows "\<exists>s1 s2. convert_inputs ctx (g_inputs g)
           \<lparr>p_graph = g, value_map = Map.empty, input_vars = [], p_input_values = vs\<rparr> = (Inr (), s1) \<and>
         convert_frontiers ops ctx (g_inputs g) s1 = Some (Inr (), s2) \<and> make_function s2 = Inr f"
  using assms
  by (auto simp: convertToRelay_Graph_def Let_def split: prod.splits sum.splits option.splits)

lemma convertToRelay_Graph_count:
  assumes "convertToRelay_Graph ops g ctx vs = Some (Inr (Function params body), g', vs')"
  shows "length (FreeVars body) \<le> length params"
  using convertToRelay_Graph_Inr [OF assms] by (auto dest!: make_function_cases)

lemma convertToRelay_Graph_subset:
  assumes "convertToRelay_Graph ops g ctx vs = Some (Inr (Function params body), g', vs')"
    and "no_new_vars ops"
  shows "set (FreeVars body) \<subseteq> set params"
proof -
  from convertToRelay_Graph_Inr [OF assms(1)] obtain s1 s2 where
    c1: "convert_inputs ctx (g_inputs g)
           \<lparr>p_graph = g, value_map = Map.empty, input_vars = [], p_input_values = vs\<rparr> = (Inr (), s1)"
    and c2: "convert_frontiers ops ctx (g_inputs g) s1 = Some (Inr (), s2)"
    and mf: "make_function s2 = Inr (Function params body)" by blast
  have "vars_bound s1"
    by (rule convert_inputs_vars [OF c1]) (simp add: vars_bound_def)
  then have s2: "vars_bound s2"
    by (rule convert_frontiers_invariant [OF c2]) (rule convert_frontier_vars [OF _ assms(2)])
  from make_function_cases [OF mf] obtain fl where
    fl: "output_fields (value_map s2) (g_outputs (p_graph s2)) [] = Inr fl"
    and eq: "params = input_vars s2" "body = Tuple fl" by auto
  from output_fields_ran [OF fl] s2 have "\<forall>e\<in>set fl. set (all_vars e) \<subseteq> set (input_vars s2)"
    by (auto simp: vars_bound_def ran_def)
  with eq show ?thesis by (auto simp: FreeVars_def)
qed

lemma no_new_vars_example: "no_new_vars example_ops"
  by (auto simp: no_new_vars_def example_ops_def split: if_splits)

lemma example_translation_tanh:
  "map_option fst (convertToRelay_Graph example_ops (example_typed_graph ''aten::tanh'')
       example_ctx (Some []))
     = Some (Inr (Function [Var 1 ''x1'' (TensorType [2, 2] (tvm_Float 32))]
                    (Tuple [Call ''aten::tanh'' [Call ''aten::relu''
                       [Var 1 ''x1'' (TensorType [2, 2] (tvm_Float 32))]]])))"
  by code_simp

text \<open>
  C2, as the code has it. The check at the end of the translation compares
  numbers: a pass whose outputs are all resolved fails with
  \<open>InternalConsistencyError\<close> exactly when the output tuple has more free
  variables than there are collected runtime-input variables, and otherwise
  returns the function; so a function that the translation returns has at most as
  many free variables as parameters. The free variables are among the collected
  runtime-input variables whenever the operator table introduces no variable of
  its own.
\<close>

theorem convertToRelay_Graph_free_vars:
  "(convertToRelay_Graph ops g ctx vs = Some (Inr (Function params body), g', vs') \<longrightarrow>
      length (FreeVars body) \<le> length params \<and>
      (no_new_vars ops \<longrightarrow> set (FreeVars body) \<subseteq> set params)) \<and>
   (output_fields (value_map s) (g_outputs (p_graph s)) [] = Inr flds \<longrightarrow>
      make_function s =
        (if length (FreeVars (Tuple flds)) \<le> length (input_vars s)
         then Inr (Function (input_vars s) (Tuple flds))
         else Inl (InternalConsistencyError (length (FreeVars (Tuple flds)))
                     (length (input_vars s)))))"
  by (auto simp: make_function_def Let_def
      dest: convertToRelay_Graph_count convertToRelay_Graph_subset)

theorem convertToRelay_Graph_free_vars_witness:
  "map_option fst (convertToRelay_Graph example_ops (example_typed_graph ''aten::tanh'')
       example_ctx (Some []))
     = Some (Inr (Function [Var 1 ''x1'' (TensorType [2, 2] (tvm_Float 32))]
                    (Tuple [Call ''aten::tanh'' [Call ''aten::relu''
                       [Var 1 ''x1'' (TensorType [2, 2] (tvm_Float 32))]]]))) \<and>
   no_new_vars example_ops \<and>
   length (FreeVars (Tuple [Call ''aten::tanh'' [Call ''aten::relu''
       [Var 1 ''x1'' (TensorType [2, 2] (tvm_Float 32))]]])) \<le> length [Var 1 ''x1'' (TensorType [2, 2] (tvm_Float 32))] \<and>
   set (FreeVars (Tuple [Call ''aten::tanh'' [Call ''aten::relu''
       [Var 1 ''x1'' (TensorType [2, 2] (tvm_Float 32))]]]))
     \<subseteq> set [Var 1 ''x1'' (TensorType [2, 2] (tvm_Float 32))] \<and>
   output_fields (value_map example_pass) (g_outputs (p_graph example_pass)) []
     = Inr [Var 99 ''w'' (TensorType [] (tvm_Float 32))] \<and>
   make_function example_pass = Inl (InternalConsistencyError 1 0)"
proof -
  let ?x = "Var 1 ''x1'' (TensorType [2, 2] (tvm_Float 32))"
  let ?body = "Tuple [Call ''aten::tanh'' [Call ''aten::relu'' [?x]]]"
  from example_translation_tanh obtain g' vs' where
    t: "convertToRelay_Graph example_ops (example_typed_graph ''aten::tanh'') example_ctx (Some [])
          = Some (Inr (Function [?x] ?body), g', vs')"
    by (cases "convertToRelay_Graph example_ops (example_typed_graph ''aten::tanh'')
          example_ctx (Some [])") auto
  have o: "output_fields (value_map example_pass) (g_outputs (p_graph example_pass)) []
     = Inr [Var 99 ''w'' (TensorType [] (tvm_Float 32))]"
    by (simp add: example_pass_def example_typed_graph_def example_graph_def inferTypeFrom_def)
  from convertToRelay_Graph_free_vars
         [of example_ops "example_typed_graph ''aten::tanh''" example_ctx "Some []"
             "[?x]" ?body g' vs' example_pass "[Var 99 ''w'' (TensorType [] (tvm_Float 32))]"]
       t o no_new_vars_example example_translation_tanh
  show ?thesis
    by (simp add: FreeVars_def example_pass_def)
qed

text \<open>
  C2 as the specification states it does not hold: with an operator table that yields a variable of
  its own, the free variable of the output tuple is none of the collected inputs,
  and the translation returns a function all the same (one free variable, one
  input).
\<close>

theorem unbound_variable_counterexample:
  "map_option fst (convertToRelay_Graph example_unbound_ops (example_typed_graph ''aten::tanh'')
       example_ctx (Some []))
     = Some (Inr (Function [Var 1 ''x1'' (TensorType [2, 2] (tvm_Float 32))]
                    (Tuple [Var 99 ''w'' (TensorType [] (tvm_Float 32))]))) \<and>
   \<not> set (FreeVars (Tuple [Var 99 ''w'' (TensorType [] (tvm_Float 32))]))
       \<subseteq> set [Var 1 ''x1'' (TensorType [2, 2] (tvm_Float 32))]"
  by code_simp

section \<open>The paths of \<^verbatim>\<open>run\<close>\<close>

lemma call_module_props:
  assumes "call_module f ev op w = (r, w')"
  shows "this w' = this w \<and> length (modules w') = length (modules w) \<and>
         (trace w' = trace w @ [ev] \<or> trace w' = trace w \<and> r = Inl BadFunctionCall)"
  using assms
  by (auto simp: call_module_def log_event_def Let_def split: option.splits if_splits sum.splits)

lemma resolve_input_upd:
  "m val = None \<Longrightarrow> toIValue g val = Some iv \<Longrightarrow> resolve_input g (m(val \<mapsto> iv)) x = resolve_input g m x"
  by (simp add: resolve_input_def)

lemma bind_trace_Nil: "bind_trace ext g m vals i []"
  by (simp add: bind_trace_def)

lemma bind_trace_Cons:
  assumes "resolve_input g m val = Some (ITensor t)" and "bind_trace ext g m rest (Suc i) evs"
  shows "bind_trace ext g m (val # rest) i (bind_event ext i t # evs)"
  using assms by (auto simp: bind_trace_def nth_Cons split: nat.splits)

lemma bind_inputs_props:
  assumes "bind_inputs ext obj g vals i m w = (r, w')"
  shows "this w' = this w \<and> length (modules w') = length (modules w) \<and>
         (\<exists>evs. trace w' = trace w @ evs \<and> bind_trace ext g m vals i evs \<and>
                (r = Inr () \<longrightarrow> length evs = length vals))"
  using assms
proof (induction vals arbitrary: i m w)
  case Nil
  then show ?case by (simp add: bind_trace_Nil)
next
  case (Cons val rest)
  show ?case
  proof (cases "resolve_input g m val")
    case None
    with Cons.prems show ?thesis
      by (auto simp: resolve_input_def bind_trace_Nil split: option.splits)
  next
    case (Some iv)
    define m' where "m' = (case m val of Some _ \<Rightarrow> m | None \<Rightarrow> m(val \<mapsto> iv))"
    have res: "resolve_input g m' x = resolve_input g m x" for x
      using Some by (auto simp: m'_def resolve_input_def split: option.splits)
    have m'val: "m' val = Some iv"
      using Some by (auto simp: m'_def resolve_input_def split: option.splits)
    show ?thesis
    proof (cases iv)
      case (ITensor t)
      define tensor where "tensor = Tensor_to (to_allocate ext) t kFloat"
      define step where "step =
        (if data_ptr tensor mod kAlignment = 0
         then call_module (set_input_zero_copy obj) (SetInputZeroCopy i tensor)
                (\<lambda>m. module_set_input_zero_copy ext m i tensor) w
         else call_module (set_input obj) (SetInput i tensor)
                (\<lambda>m. module_set_input ext m i tensor) w)"
      obtain r1 w1 where step: "step = (r1, w1)" by (cases step)
      have m'_eq: "m' = m \<and> m val = Some (ITensor t) \<or>
                   m' = m(val \<mapsto> ITensor t) \<and> m val = None \<and> toIValue g val = Some (ITensor t)"
        using Some ITensor by (auto simp: m'_def resolve_input_def split: option.splits)
      have unfold: "bind_inputs ext obj g (val # rest) i m w =
          (case step of (Inl e, w') \<Rightarrow> (Inl e, w')
           | (Inr _, w') \<Rightarrow> bind_inputs ext obj g rest (i + 1) m' w')"
        using m'_eq
      proof
        assume a: "m' = m \<and> m val = Some (ITensor t)"
        then have "m' = m" by simp
        then show ?thesis unfolding \<open>m' = m\<close> step_def tensor_def using a by (simp add: Let_def)
      next
        assume a: "m' = m(val \<mapsto> ITensor t) \<and> m val = None \<and> toIValue g val = Some (ITensor t)"
        then have e: "m' = m(val \<mapsto> ITensor t)" by simp
        show ?thesis unfolding e step_def tensor_def using a by (simp add: Let_def)
      qed
      have w1: "this w1 = this w \<and> length (modules w1) = length (modules w) \<and>
         (trace w1 = trace w @ [bind_event ext i t] \<or> trace w1 = trace w \<and> r1 = Inl BadFunctionCall)"
      proof (cases "data_ptr tensor mod kAlignment = 0")
        case True
        then have "call_module (set_input_zero_copy obj) (SetInputZeroCopy i tensor)
                (\<lambda>m. module_set_input_zero_copy ext m i tensor) w = (r1, w1)"
          using step by (simp add: step_def)
        from call_module_props [OF this] show ?thesis
          using True by (simp add: bind_event_def tensor_def Let_def)
      next
        case False
        then have "call_module (set_input obj) (SetInput i tensor)
                (\<lambda>m. module_set_input ext m i tensor) w = (r1, w1)"
          using step by (simp add: step_def)
        from call_module_props [OF this] show ?thesis
          using False by (simp add: bind_event_def tensor_def Let_def)
      qed
      show ?thesis
      proof (cases r1)
        case (Inl e)
        with Cons.prems unfold step have "r = Inl e" "w' = w1" by auto
        moreover have "bind_trace ext g m (val # rest) i [bind_event ext i t]"
          using Some ITensor by (intro bind_trace_Cons bind_trace_Nil) simp
        ultimately show ?thesis using w1 by (auto simp: bind_trace_Nil)
      next
        case (Inr u)
        with Cons.prems unfold step have rec: "bind_inputs ext obj g rest (Suc i) m' w1 = (r, w')" by auto
        from Cons.IH [OF rec] obtain evs where evs: "this w' = this w1" "length (modules w') = length (modules w1)"
          "trace w' = trace w1 @ evs" "bind_trace ext g m' rest (Suc i) evs" "r = Inr () \<longrightarrow> length evs = length rest"
          by blast
        have "bind_trace ext g m rest (Suc i) evs"
          using evs(4) by (simp add: bind_trace_def res)
        then have "bind_trace ext g m (val # rest) i (bind_event ext i t # evs)"
          using Some ITensor by (intro bind_trace_Cons) simp
        moreover have "trace w1 = trace w @ [bind_event ext i t]" using w1 Inr by auto
        ultimately show ?thesis using evs w1 by auto
      qed
    qed (use Cons.prems Some in \<open>auto simp: resolve_input_def bind_trace_Nil split: option.splits\<close>)
  qed
qed

lemma push_outputs_props:
  assumes "push_outputs ext obj outs i w stack = (r, w', stack')"
  shows "this w' = this w \<and> modules w' = modules w \<and>
         (\<exists>evs. trace w' = trace w @ evs \<and> (\<forall>ev\<in>set evs. \<exists>j. ev = GetOutput j))"
  using assms
proof (induction outs arbitrary: i w stack)
  case Nil
  then show ?case by simp
next
  case (Cons out rest)
  then show ?case
    apply (auto simp: log_event_def Let_def split: option.splits if_splits sum.splits)
    apply fastforce+
    done
qed

lemma execute_entry_props:
  assumes "execute_entry ext spec m w stack = (r, w', stack')"
  shows "this w' = this w \<and> length (modules w') = length (modules w) \<and>
     (\<exists>binds post. trace w' = trace w @ binds @ post \<and>
        bind_trace ext (m_subgraph (this w)) m (input_values (the (m_cache (this w) spec))) 0 binds \<and>
        tail_events post \<and>
        (post \<noteq> [] \<longrightarrow> length binds = length (input_values (the (m_cache (this w) spec)))) \<and>
        (r = Inr () \<longrightarrow> Kernel \<in> set post))"
proof -
  define obj where "obj = the (m_cache (this w) spec)"
  define g where "g = m_subgraph (this w)"
  obtain r1 w1 where b: "bind_inputs ext obj g (input_values obj) 0 m w = (r1, w1)"
    by (cases "bind_inputs ext obj g (input_values obj) 0 m w")
  from bind_inputs_props [OF b] obtain binds where
    w1: "this w1 = this w" "length (modules w1) = length (modules w)"
    and tr1: "trace w1 = trace w @ binds" and bt: "bind_trace ext g m (input_values obj) 0 binds"
    and full: "r1 = Inr () \<longrightarrow> length binds = length (input_values obj)"
    by blast
  show ?thesis
  proof (cases r1)
    case (Inl e)
    with assms b have "w' = w1" "r = Inl e"
      by (auto simp: execute_entry_def obj_def g_def Let_def)
    have "\<exists>binds post. trace w' = trace w @ binds @ post \<and>
        bind_trace ext (m_subgraph (this w)) m (input_values (the (m_cache (this w) spec))) 0 binds \<and>
        tail_events post \<and>
        (post \<noteq> [] \<longrightarrow> length binds = length (input_values (the (m_cache (this w) spec)))) \<and>
        (r = Inr () \<longrightarrow> Kernel \<in> set post)"
      apply (rule exI [of _ binds], rule exI [of _ "[]"])
      using \<open>w' = w1\<close> \<open>r = Inl e\<close> tr1 bt
      apply (simp add: obj_def g_def tail_events_def)
      done
    with w1 \<open>w' = w1\<close> show ?thesis by simp
  next
    case (Inr u)
    obtain r2 w2 where k: "call_module (kernel obj) Kernel (module_run ext) w1 = (r2, w2)"
      by (cases "call_module (kernel obj) Kernel (module_run ext) w1")
    from call_module_props [OF k] have w2: "this w2 = this w1" "length (modules w2) = length (modules w1)"
      and tr2: "trace w2 = trace w1 @ [Kernel] \<or> trace w2 = trace w1 \<and> r2 = Inl BadFunctionCall"
      by auto
    show ?thesis
    proof (cases r2)
      case (Inl e)
      with assms b k Inr have "w' = w2" "r = Inl e"
        by (auto simp: execute_entry_def obj_def g_def Let_def)
      moreover from tr2 have "\<exists>post. trace w2 = trace w1 @ post \<and> tail_events post"
        by (auto simp: tail_events_def)
      ultimately obtain post where post: "trace w' = trace w1 @ post" "tail_events post" "r = Inl e"
        by auto
      have "\<exists>binds post. trace w' = trace w @ binds @ post \<and>
        bind_trace ext (m_subgraph (this w)) m (input_values (the (m_cache (this w) spec))) 0 binds \<and>
        tail_events post \<and>
        (post \<noteq> [] \<longrightarrow> length binds = length (input_values (the (m_cache (this w) spec)))) \<and>
        (r = Inr () \<longrightarrow> Kernel \<in> set post)"
        apply (rule exI [of _ binds], rule exI [of _ post])
        using post tr1 bt full Inr
        apply (simp add: obj_def g_def)
        done
      with w1 w2 \<open>w' = w2\<close> show ?thesis by simp
    next
      case r2: (Inr u2)
      with tr2 have tr2': "trace w2 = trace w1 @ [Kernel]" by auto
      define st where "st = drop_n stack (length (g_inputs g))"
      from assms b k Inr r2 have p: "push_outputs ext obj (g_outputs g) 0 w2 st = (r, w', stack')"
        by (auto simp: execute_entry_def obj_def g_def st_def Let_def)
      from push_outputs_props [OF p] obtain evs where
        w3: "this w' = this w2" "modules w' = modules w2" "trace w' = trace w2 @ evs"
        "\<forall>ev\<in>set evs. \<exists>j. ev = GetOutput j" by blast
      have "trace w' = trace w @ binds @ (Kernel # evs)"
        using w3 tr2' tr1 by simp
      moreover have "tail_events (Kernel # evs)"
        using w3(4) by (auto simp: tail_events_def)
      ultimately have "\<exists>binds post. trace w' = trace w @ binds @ post \<and>
        bind_trace ext (m_subgraph (this w)) m (input_values (the (m_cache (this w) spec))) 0 binds \<and>
        tail_events post \<and>
        (post \<noteq> [] \<longrightarrow> length binds = length (input_values (the (m_cache (this w) spec)))) \<and>
        (r = Inr () \<longrightarrow> Kernel \<in> set post)"
        apply -
        apply (rule exI [of _ binds], rule exI [of _ "Kernel # evs"])
        using bt full Inr
        apply (simp add: obj_def g_def)
        done
      with w1 w2 w3 show ?thesis by simp
    qed
  qed
qed

lemma build_entry_props:
  assumes "build_entry ext spec f w = (out, w')"
  shows "trace w' = trace w @ [Build] \<and> out \<noteq> Return \<and>
         m_subgraph (this w') = m_subgraph (this w) \<and> m_strict (this w') = m_strict (this w) \<and>
         m_ctx (this w') = m_ctx (this w) \<and> m_device (this w') = m_device (this w) \<and>
         m_host (this w') = m_host (this w) \<and>
         length (modules w) \<le> length (modules w') \<and>
         (m_cache (this w') = m_cache (this w) \<and> out \<noteq> Continue \<and> modules w' = modules w \<or>
          (\<exists>obj. m_cache (this w') = (m_cache (this w))(spec \<mapsto> obj) \<and>
                 input_values obj = input_values (case m_cache (this w) spec of None \<Rightarrow> default_TVMObject | Some o' \<Rightarrow> o') \<and>
                 kernel obj = Some (length (modules w)) \<and>
                 length (modules w') = Suc (length (modules w))))"
  using assms
  by (auto simp: build_entry_def set_entry_def log_event_def Let_def split: sum.splits if_splits)

lemma compile_entry_translation:
  assumes "m_cache (this w) spec = None"
    and "infer_input_types m (remdups (g_inputs (m_subgraph (this w)))) (m_subgraph (this w)) = (Inr (), g)"
    and "convertToRelay_Graph ops g (m_ctx (this w)) (Some []) = Some (res, g', vs)"
  shows "compile_entry ops ext spec m w stack =
     (let w3 = translated_world spec g' vs w
      in case res of
           Inl e \<Rightarrow>
             (if m_strict (this w) then Some (Throw (TranslationError e), w3, stack)
              else (case interpreter_run ext g' stack of
                      (Inl e', stack') \<Rightarrow> Some (Throw e', log_event Interpreter w3, stack')
                    | (Inr _, stack') \<Rightarrow> Some (Return, log_event Interpreter w3, stack')))
         | Inr f \<Rightarrow> (case build_entry ext spec f w3 of (out, w4) \<Rightarrow> Some (out, w4, stack)))"
proof -
  have w3: "set_entry spec (\<lambda>obj. obj\<lparr>input_values := the vs\<rparr>)
          (set_subgraph g' (log_event ConvertToRelay (set_entry spec (\<lambda>obj. obj) (set_subgraph g w))))
        = translated_world spec g' vs w"
    using assms(1)
    by (simp add: set_entry_def set_subgraph_def log_event_def translated_world_def)
  have ctx: "m_ctx (this (log_event ConvertToRelay (set_entry spec (\<lambda>obj. obj) (set_subgraph g w)))) = m_ctx (this w)"
    and iv: "input_values (the (m_cache (this (log_event ConvertToRelay (set_entry spec (\<lambda>obj. obj) (set_subgraph g w)))) spec)) = []"
    using assms(1)
    by (simp_all add: set_entry_def set_subgraph_def log_event_def default_TVMObject_def)
  have st: "m_strict (this (translated_world spec g' vs w)) = m_strict (this w)"
    "m_subgraph (this (log_event Interpreter (translated_world spec g' vs w))) = g'"
    by (simp_all add: translated_world_def log_event_def)
  show ?thesis
    unfolding compile_entry_def assms(2) prod.case sum.case Let_def ctx iv assms(3) option.case w3 st
    by (rule refl)
qed

lemma run_unfold:
  "run ops ext w stack =
     (if length stack < length (g_inputs (m_subgraph (this w))) then Some (Inl StackUnderflowError, w, stack)
      else if m_cache (this w) (invocation_spec ext w stack) = None
      then (case compile_entry ops ext (invocation_spec ext w stack) (invocation_bindings w stack) w stack of
              None \<Rightarrow> None
            | Some (Throw e, w', stack') \<Rightarrow> Some (Inl e, w', stack')
            | Some (Return, w', stack') \<Rightarrow> Some (Inr (), w', stack')
            | Some (Continue, w', stack') \<Rightarrow>
                Some (execute_entry ext (invocation_spec ext w stack) (invocation_bindings w stack) w' stack'))
      else Some (execute_entry ext (invocation_spec ext w stack) (invocation_bindings w stack) w stack))"
  unfolding run_def Let_def invocation_spec_def invocation_bindings_def invocation_inputs_def
  by (rule refl)

lemma run_translation_failed:
  assumes "length (g_inputs (m_subgraph (this w))) \<le> length stack"
    and "m_cache (this w) (invocation_spec ext w stack) = None"
    and "translation ops w stack = Some (Inl e, g', vs)"
  shows "run ops ext w stack =
     (let w3 = translated_world (invocation_spec ext w stack) g' vs w
      in if m_strict (this w) then Some (Inl (TranslationError e), w3, stack)
         else (case interpreter_run ext g' stack of
                 (r, stack') \<Rightarrow> Some (r, log_event Interpreter w3, stack')))"
proof -
  from assms(3) obtain g where
    i: "infer_input_types (invocation_bindings w stack)
          (remdups (g_inputs (m_subgraph (this w)))) (m_subgraph (this w)) = (Inr (), g)"
    and c: "convertToRelay_Graph ops g (m_ctx (this w)) (Some []) = Some (Inl e, g', vs)"
    by (auto simp: translation_def split: prod.splits sum.splits)
  show ?thesis
    using assms(1)
    by (auto simp: run_unfold assms(2) compile_entry_translation [OF assms(2) i c] Let_def
        split: prod.splits sum.splits)
qed

lemma run_translated:
  assumes "length (g_inputs (m_subgraph (this w))) \<le> length stack"
    and "m_cache (this w) (invocation_spec ext w stack) = None"
    and "translation ops w stack = Some (Inr f, g', vs)"
    and "build_entry ext (invocation_spec ext w stack) f
           (translated_world (invocation_spec ext w stack) g' vs w) = (out, w4)"
  shows "run ops ext w stack =
     (case out of
        Throw e \<Rightarrow> Some (Inl e, w4, stack)
      | Return \<Rightarrow> Some (Inr (), w4, stack)
      | Continue \<Rightarrow>
          Some (execute_entry ext (invocation_spec ext w stack) (invocation_bindings w stack) w4 stack))"
proof -
  from assms(3) obtain g where
    i: "infer_input_types (invocation_bindings w stack)
          (remdups (g_inputs (m_subgraph (this w)))) (m_subgraph (this w)) = (Inr (), g)"
    and c: "convertToRelay_Graph ops g (m_ctx (this w)) (Some []) = Some (Inr f, g', vs)"
    by (auto simp: translation_def split: prod.splits sum.splits)
  show ?thesis
    using assms(1)
    by (auto simp: run_unfold assms(2) assms(4) compile_entry_translation [OF assms(2) i c] Let_def
        split: outcome.splits)
qed

lemma run_cases:
  assumes "run ops ext w stack = Some (r, w', stack')"
  shows "trace w' = trace w \<and> (\<exists>e. r = Inl e)
       \<or> m_cache (this w) (invocation_spec ext w stack) \<noteq> None \<and>
           execute_entry ext (invocation_spec ext w stack) (invocation_bindings w stack) w stack = (r, w', stack')
       \<or> (\<exists>e g' vs. translation ops w stack = Some (Inl e, g', vs) \<and>
             (trace w' = trace w @ [ConvertToRelay] \<and> r = Inl (TranslationError e) \<or>
              trace w' = trace w @ [ConvertToRelay, Interpreter]))
       \<or> (\<exists>f g' vs out w4. translation ops w stack = Some (Inr f, g', vs) \<and>
             m_cache (this w) (invocation_spec ext w stack) = None \<and>
             build_entry ext (invocation_spec ext w stack) f
               (translated_world (invocation_spec ext w stack) g' vs w) = (out, w4) \<and>
             ((\<exists>e. out = Throw e \<and> r = Inl e \<and> w' = w4) \<or>
              out = Continue \<and>
              execute_entry ext (invocation_spec ext w stack) (invocation_bindings w stack) w4 stack
                = (r, w', stack')))"
proof (cases "length stack < length (g_inputs (m_subgraph (this w)))")
  case True
  with assms show ?thesis by (auto simp: run_unfold)
next
  case len: False
  show ?thesis
  proof (cases "m_cache (this w) (invocation_spec ext w stack)")
    case (Some obj)
    with assms len show ?thesis by (auto simp: run_unfold)
  next
    case None
    obtain ri g where i: "infer_input_types (invocation_bindings w stack)
          (remdups (g_inputs (m_subgraph (this w)))) (m_subgraph (this w)) = (ri, g)"
      by (cases "infer_input_types (invocation_bindings w stack)
          (remdups (g_inputs (m_subgraph (this w)))) (m_subgraph (this w))")
    show ?thesis
    proof (cases ri)
      case (Inl e)
      with assms len None i have "w' = set_subgraph g w" "r = Inl e"
        by (auto simp: run_unfold compile_entry_def)
      then show ?thesis by (simp add: set_subgraph_def)
    next
      case (Inr u)
      with i have i': "infer_input_types (invocation_bindings w stack)
          (remdups (g_inputs (m_subgraph (this w)))) (m_subgraph (this w)) = (Inr (), g)" by simp
      then have tr: "translation ops w stack = convertToRelay_Graph ops g (m_ctx (this w)) (Some [])"
        by (simp add: translation_def)
      show ?thesis
      proof (cases "convertToRelay_Graph ops g (m_ctx (this w)) (Some [])")
        case none: None
        have "compile_entry ops ext (invocation_spec ext w stack) (invocation_bindings w stack) w stack = None"
          unfolding compile_entry_def i' prod.case sum.case Let_def
          using none None by (simp add: set_entry_def set_subgraph_def log_event_def default_TVMObject_def)
        with assms len None show ?thesis by (simp add: run_unfold)
      next
        case (Some x)
        then obtain res g' vs where c: "convertToRelay_Graph ops g (m_ctx (this w)) (Some []) = Some (res, g', vs)"
          by (cases x) auto
        show ?thesis
        proof (cases res)
          case (Inl e)
          with c tr have t: "translation ops w stack = Some (Inl e, g', vs)" by simp
          from len have len': "length (g_inputs (m_subgraph (this w))) \<le> length stack" by simp
          from assms run_translation_failed [OF len' None t]
          have "trace w' = trace w @ [ConvertToRelay] \<and> r = Inl (TranslationError e) \<or>
              trace w' = trace w @ [ConvertToRelay, Interpreter]"
            by (auto simp: Let_def translated_world_def log_event_def split: if_splits prod.splits)
          with t show ?thesis by blast
        next
          case (Inr f)
          with c tr have t: "translation ops w stack = Some (Inr f, g', vs)" by simp
          from len have len': "length (g_inputs (m_subgraph (this w))) \<le> length stack" by simp
          obtain out w4 where b: "build_entry ext (invocation_spec ext w stack) f
               (translated_world (invocation_spec ext w stack) g' vs w) = (out, w4)"
            by (cases "build_entry ext (invocation_spec ext w stack) f
               (translated_world (invocation_spec ext w stack) g' vs w)")
          from build_entry_props [OF b] have nr: "out \<noteq> Return" by simp
          from assms run_translated [OF len' None t b] nr
          have "(\<exists>e. out = Throw e \<and> r = Inl e \<and> w' = w4) \<or>
              out = Continue \<and>
              execute_entry ext (invocation_spec ext w stack) (invocation_bindings w stack) w4 stack
                = (r, w', stack')"
            by (cases out) auto
          with t None b show ?thesis by blast
        qed
      qed
    qed
  qed
qed

section \<open>A failed translation\<close>

lemma example_translation_foo:
  "map_option fst
     (translation example_ops (example_world True ''aten::foo'') [ITensor example_tensor])
     = Some (Inl (OperatorError ''aten::foo''))"
  by code_simp

lemma example_world_miss: "m_cache (this (example_world b k)) spec = None"
  by (simp add: example_world_def)

text \<open>
  C5. In strict mode, an invocation whose translation fails with a cause \<open>e\<close>
  raises the \<open>TranslationError\<close> that carries \<open>e\<close>; the stack is the caller's
  stack, unchanged; and the one call made is the translation itself: no
  interpreter, no build, no binding, no kernel, and no module is created or
  changed.
\<close>

theorem run_strict_translation_error:
  assumes "m_strict (this w)"
    and "length (g_inputs (m_subgraph (this w))) \<le> length stack"
    and "m_cache (this w) (invocation_spec ext w stack) = None"
    and "translation ops w stack = Some (Inl e, g', vs)"
  shows "\<exists>w'. run ops ext w stack = Some (Inl (TranslationError e), w', stack) \<and>
           trace w' = trace w @ [ConvertToRelay] \<and> modules w' = modules w"
  using assms(1)
  by (simp add: run_translation_failed [OF assms(2-4)] translated_world_def Let_def)

theorem run_strict_translation_error_witness:
  "m_strict (this (example_world True ''aten::foo'')) \<and>
   map_option fst
     (translation example_ops (example_world True ''aten::foo'') [ITensor example_tensor])
     = Some (Inl (OperatorError ''aten::foo'')) \<and>
   (\<exists>w'. run example_ops example_ext (example_world True ''aten::foo'') [ITensor example_tensor]
            = Some (Inl (TranslationError (OperatorError ''aten::foo'')), w',
                    [ITensor example_tensor]) \<and>
          trace w' = [ConvertToRelay] \<and> modules w' = [])"
proof -
  let ?w = "example_world True ''aten::foo''"
  from example_translation_foo obtain g' vs where
    t: "translation example_ops ?w [ITensor example_tensor]
          = Some (Inl (OperatorError ''aten::foo''), g', vs)"
    by (cases "translation example_ops ?w [ITensor example_tensor]") auto
  have s: "m_strict (this ?w)"
    and l: "length (g_inputs (m_subgraph (this ?w))) \<le> length [ITensor example_tensor]"
    by (simp_all add: example_world_def example_graph_def)
  from run_strict_translation_error [OF s l example_world_miss t, of example_ext]
  show ?thesis using s example_translation_foo by (simp add: example_world_def)
qed

text \<open>
  C1 does not hold of the code. Without strict mode, the invocation whose translation
  fails runs the interpreter and returns, but the cache then has an entry for the
  signature: \<^verbatim>\<open>&cache_[spec].input_values\<close>, the argument of the translation,
  has inserted it. Its functions are default-constructed. The next invocation with
  that signature finds the entry, translates nothing, and fails on the first call
  of a function of the entry.
\<close>

theorem run_fallback_leaves_entry:
  "(case run example_ops example_ext (example_world False ''aten::foo'') [ITensor example_tensor] of
      None \<Rightarrow> False
    | Some (r, w', stack') \<Rightarrow>
        r = Inr () \<and> stack' = [INone] \<and> trace w' = [ConvertToRelay, Interpreter] \<and>
        m_cache (this w') (example_signature [ITensor example_tensor])
          = Some (default_TVMObject\<lparr>input_values := [1]\<rparr>) \<and>
        (case run example_ops example_ext w' [ITensor example_tensor] of
           None \<Rightarrow> False
         | Some (r2, w2, stack2) \<Rightarrow>
             r2 = Inl BadFunctionCall \<and> trace w2 = trace w' \<and> stack2 = [ITensor example_tensor]))"
  by code_simp

section \<open>The binding of the runtime inputs\<close>

lemma bind_trace_events:
  assumes "bind_trace ext g m vals i binds" and "ev \<in> set binds"
  shows "\<exists>j t. j < length binds \<and> resolve_input g m (vals ! j) = Some (ITensor t) \<and>
               binds ! j = ev \<and> ev = bind_event ext (i + j) t"
proof -
  from assms(2) obtain j where "j < length binds" "binds ! j = ev"
    by (auto simp: in_set_conv_nth)
  with assms(1) show ?thesis by (auto simp: bind_trace_def)
qed

lemma bind_event_cases:
  "bind_event ext i t = SetInputZeroCopy i (Tensor_to (to_allocate ext) t kFloat) \<and>
     data_ptr (Tensor_to (to_allocate ext) t kFloat) mod kAlignment = 0 \<or>
   bind_event ext i t = SetInput i (Tensor_to (to_allocate ext) t kFloat) \<and>
     data_ptr (Tensor_to (to_allocate ext) t kFloat) mod kAlignment \<noteq> 0"
  by (simp add: bind_event_def Let_def)

lemma run_events:
  assumes "run ops ext w stack = Some (r, w', stack')"
  shows "\<exists>pre binds post.
      trace w' = trace w @ pre @ binds @ post \<and>
      set pre \<subseteq> {ConvertToRelay, Build, Interpreter} \<and>
      bind_trace ext (m_subgraph (this w')) (invocation_bindings w stack)
        (input_values (the (m_cache (this w') (invocation_spec ext w stack)))) 0 binds \<and>
      tail_events post \<and>
      (post \<noteq> [] \<longrightarrow>
         length binds = length (input_values (the (m_cache (this w') (invocation_spec ext w stack)))))"
proof -
  let ?spec = "invocation_spec ext w stack"
  let ?m = "invocation_bindings w stack"
  let ?P = "\<lambda>pre binds post.
      trace w' = trace w @ pre @ binds @ post \<and>
      set pre \<subseteq> {ConvertToRelay, Build, Interpreter} \<and>
      bind_trace ext (m_subgraph (this w')) ?m (input_values (the (m_cache (this w') ?spec))) 0 binds \<and>
      tail_events post \<and>
      (post \<noteq> [] \<longrightarrow> length binds = length (input_values (the (m_cache (this w') ?spec))))"
  have nil: "bind_trace ext g m vals 0 []" "tail_events []" for g m vals
    by (simp_all add: bind_trace_def tail_events_def)
  from run_cases [OF assms] consider
    (same) "trace w' = trace w"
    | (hit) "execute_entry ext ?spec ?m w stack = (r, w', stack')"
    | (failed) "trace w' = trace w @ [ConvertToRelay] \<or> trace w' = trace w @ [ConvertToRelay, Interpreter]"
    | (built) f g' vs out w4 where
        "build_entry ext ?spec f (translated_world ?spec g' vs w) = (out, w4)"
        "w' = w4 \<or> execute_entry ext ?spec ?m w4 stack = (r, w', stack')"
    by blast
  then show ?thesis
  proof cases
    case same
    then have "?P [] [] []" by (simp add: nil)
    then show ?thesis by blast
  next
    case hit
    from execute_entry_props [OF hit] obtain binds post where
      "this w' = this w" "trace w' = trace w @ binds @ post"
      "bind_trace ext (m_subgraph (this w)) ?m (input_values (the (m_cache (this w) ?spec))) 0 binds"
      "tail_events post"
      "post \<noteq> [] \<longrightarrow> length binds = length (input_values (the (m_cache (this w) ?spec)))"
      by blast
    then have "?P [] binds post" by simp
    then show ?thesis by blast
  next
    case failed
    then have "?P [ConvertToRelay] [] [] \<or> ?P [ConvertToRelay, Interpreter] [] []"
      by (auto simp: nil)
    then show ?thesis by blast
  next
    case built
    from build_entry_props [OF built(1)]
    have tr4: "trace w4 = trace w @ [ConvertToRelay, Build]"
      by (simp add: translated_world_def)
    from built(2) show ?thesis
    proof
      assume "w' = w4"
      with tr4 have "?P [ConvertToRelay, Build] [] []" by (simp add: nil)
      then show ?thesis by blast
    next
      assume ex: "execute_entry ext ?spec ?m w4 stack = (r, w', stack')"
      from execute_entry_props [OF ex] obtain binds post where
        "this w' = this w4" "trace w' = trace w4 @ binds @ post"
        "bind_trace ext (m_subgraph (this w4)) ?m (input_values (the (m_cache (this w4) ?spec))) 0 binds"
        "tail_events post"
        "post \<noteq> [] \<longrightarrow> length binds = length (input_values (the (m_cache (this w4) ?spec)))"
        by blast
      with tr4 have "?P [ConvertToRelay, Build] binds post" by simp
      then show ?thesis by blast
    qed
  qed
qed

lemma example_run_long:
  "map_option (\<lambda>(r, w', stack'). (r, trace w'))
     (run example_ops example_ext (example_world False ''aten::tanh'') [ITensor example_long_tensor])
   = Some (Inr (), [ConvertToRelay, Build,
        SetInput 0 \<lparr>scalar_type = kFloat, sizes = [2, 2], data_ptr = 129\<rparr>, Kernel, GetOutput 0])"
  by code_simp

lemma example_run_float:
  "map_option (\<lambda>(r, w', stack'). (r, trace w'))
     (run example_ops example_ext (example_world False ''aten::tanh'') [ITensor example_tensor])
   = Some (Inr (), [ConvertToRelay, Build,
        SetInputZeroCopy 0 \<lparr>scalar_type = kFloat, sizes = [2, 2], data_ptr = 128\<rparr>, Kernel, GetOutput 0])"
  by code_simp

lemma example_translation_long:
  "map_option fst
     (translation example_ops (example_world False ''aten::tanh'') [ITensor example_long_tensor])
   = Some (Inr (Function [Var 1 ''x1'' (TensorType [2, 2] (tvm_Int 64))]
             (Tuple [Call ''aten::tanh'' [Call ''aten::relu''
                [Var 1 ''x1'' (TensorType [2, 2] (tvm_Int 64))]]])))"
  by code_simp

lemma example_trace_empty: "trace (example_world b k) = []"
  by (simp add: example_world_def)

text \<open>
  C7. The alignment is 64. Of the calls an invocation makes, every zero-copy bind
  is of a tensor whose buffer address is a multiple of the alignment and every
  copying bind is of a tensor whose address is not; and when the invocation
  reaches the kernel, every runtime input of the cache entry has been bound, its
  tensor converted to float32, through the zero-copy function if the address of
  the converted tensor's buffer is a multiple of the alignment and through the
  copying function otherwise.
\<close>

theorem run_zero_copy_iff_aligned:
  assumes "run ops ext w stack = Some (r, w', stack')"
  shows "kAlignment = 64 \<and>
    (\<exists>evs. trace w' = trace w @ evs \<and>
      (\<forall>i t. SetInputZeroCopy i t \<in> set evs \<longrightarrow> data_ptr t mod kAlignment = 0) \<and>
      (\<forall>i t. SetInput i t \<in> set evs \<longrightarrow> data_ptr t mod kAlignment \<noteq> 0) \<and>
      (Kernel \<in> set evs \<longrightarrow>
         (\<forall>j<length (input_values (the (m_cache (this w') (invocation_spec ext w stack)))).
            \<exists>t0. resolve_input (m_subgraph (this w')) (invocation_bindings w stack)
                    (input_values (the (m_cache (this w') (invocation_spec ext w stack))) ! j)
                    = Some (ITensor t0) \<and>
                  (if data_ptr (Tensor_to (to_allocate ext) t0 kFloat) mod kAlignment = 0
                   then SetInputZeroCopy j (Tensor_to (to_allocate ext) t0 kFloat) \<in> set evs
                   else SetInput j (Tensor_to (to_allocate ext) t0 kFloat) \<in> set evs))))"
proof -
  let ?vals = "input_values (the (m_cache (this w') (invocation_spec ext w stack)))"
  let ?g = "m_subgraph (this w')"
  let ?m = "invocation_bindings w stack"
  from run_events [OF assms] obtain pre binds post where
    tr: "trace w' = trace w @ pre @ binds @ post"
    and pre: "set pre \<subseteq> {ConvertToRelay, Build, Interpreter}"
    and bt: "bind_trace ext ?g ?m ?vals 0 binds"
    and post: "tail_events post"
    and full: "post \<noteq> [] \<longrightarrow> length binds = length ?vals"
    by blast
  have in_binds: "ev \<in> set binds" if "ev \<in> set (pre @ binds @ post)"
    "(\<exists>i t. ev = SetInput i t) \<or> (\<exists>i t. ev = SetInputZeroCopy i t)" for ev
    using that pre post by (auto simp: tail_events_def)
  have zc: "data_ptr t mod kAlignment = 0" if "SetInputZeroCopy i t \<in> set (pre @ binds @ post)" for i t
  proof -
    from in_binds [OF that] have "SetInputZeroCopy i t \<in> set binds" by blast
    from bind_trace_events [OF bt this] obtain j t0 where
      "SetInputZeroCopy i t = bind_event ext (0 + j) t0" by blast
    with bind_event_cases [of ext "0 + j" t0] show ?thesis by auto
  qed
  have cp: "data_ptr t mod kAlignment \<noteq> 0" if "SetInput i t \<in> set (pre @ binds @ post)" for i t
  proof -
    from in_binds [OF that] have "SetInput i t \<in> set binds" by blast
    from bind_trace_events [OF bt this] obtain j t0 where
      "SetInput i t = bind_event ext (0 + j) t0" by blast
    with bind_event_cases [of ext "0 + j" t0] show ?thesis by auto
  qed
  have all: "\<exists>t0. resolve_input ?g ?m (?vals ! j) = Some (ITensor t0) \<and>
                  (if data_ptr (Tensor_to (to_allocate ext) t0 kFloat) mod kAlignment = 0
                   then SetInputZeroCopy j (Tensor_to (to_allocate ext) t0 kFloat) \<in> set (pre @ binds @ post)
                   else SetInput j (Tensor_to (to_allocate ext) t0 kFloat) \<in> set (pre @ binds @ post))"
    if k: "Kernel \<in> set (pre @ binds @ post)" and j: "j < length ?vals" for j
  proof -
    from k pre have "Kernel \<in> set binds \<or> Kernel \<in> set post" by auto
    moreover have "Kernel \<notin> set binds"
    proof
      assume "Kernel \<in> set binds"
      from bind_trace_events [OF bt this] obtain j t0 where "Kernel = bind_event ext (0 + j) t0" by blast
      with bind_event_cases [of ext "0 + j" t0] show False by auto
    qed
    ultimately have "post \<noteq> []" by auto
    with full j have jb: "j < length binds" by simp
    with bt obtain t0 where t0: "resolve_input ?g ?m (?vals ! j) = Some (ITensor t0)"
      "binds ! j = bind_event ext j t0" by (auto simp: bind_trace_def)
    from jb t0(2) have "bind_event ext j t0 \<in> set binds" by (metis nth_mem)
    with t0(1) show ?thesis by (auto simp: bind_event_def Let_def)
  qed
  show ?thesis
    apply (rule conjI)
     apply (simp add: kAlignment_def)
    apply (rule exI [of _ "pre @ binds @ post"])
    using tr zc cp all
    apply blast
    done
qed

theorem run_zero_copy_iff_aligned_witness:
  "(\<exists>r w' stack'.
      run example_ops example_ext (example_world False ''aten::tanh'') [ITensor example_tensor]
        = Some (r, w', stack') \<and>
      trace w' = [ConvertToRelay, Build,
        SetInputZeroCopy 0 \<lparr>scalar_type = kFloat, sizes = [2, 2], data_ptr = 128\<rparr>, Kernel, GetOutput 0] \<and>
      data_ptr \<lparr>scalar_type = kFloat, sizes = [2, 2], data_ptr = 128\<rparr> mod kAlignment = 0) \<and>
   (\<exists>r w' stack'.
      run example_ops example_ext (example_world False ''aten::tanh'') [ITensor example_long_tensor]
        = Some (r, w', stack') \<and>
      trace w' = [ConvertToRelay, Build,
        SetInput 0 \<lparr>scalar_type = kFloat, sizes = [2, 2], data_ptr = 129\<rparr>, Kernel, GetOutput 0] \<and>
      data_ptr \<lparr>scalar_type = kFloat, sizes = [2, 2], data_ptr = 129\<rparr> mod kAlignment \<noteq> 0)"
proof -
  let ?w = "example_world False ''aten::tanh''"
  let ?t = "\<lparr>scalar_type = kFloat, sizes = [2, 2], data_ptr = 128\<rparr>"
  let ?u = "\<lparr>scalar_type = kFloat, sizes = [2, 2], data_ptr = 129\<rparr>"
  from example_run_float obtain r w' stack' where
    run: "run example_ops example_ext ?w [ITensor example_tensor] = Some (r, w', stack')"
    and tr: "trace w' = [ConvertToRelay, Build, SetInputZeroCopy 0 ?t, Kernel, GetOutput 0]"
    by (cases "run example_ops example_ext ?w [ITensor example_tensor]") auto
  from run_zero_copy_iff_aligned [OF run] obtain evs where
    evs: "trace w' = trace ?w @ evs"
    and z: "\<And>i t. SetInputZeroCopy i t \<in> set evs \<Longrightarrow> data_ptr t mod kAlignment = 0"
    by blast
  from evs tr have "SetInputZeroCopy 0 ?t \<in> set evs" by (auto simp: example_trace_empty)
  from z [OF this] run tr have first: "\<exists>r w' stack'.
      run example_ops example_ext ?w [ITensor example_tensor] = Some (r, w', stack') \<and>
      trace w' = [ConvertToRelay, Build, SetInputZeroCopy 0 ?t, Kernel, GetOutput 0] \<and>
      data_ptr ?t mod kAlignment = 0" by (intro exI conjI)
  from example_run_long obtain r2 w2 stack2 where
    run2: "run example_ops example_ext ?w [ITensor example_long_tensor] = Some (r2, w2, stack2)"
    and tr2: "trace w2 = [ConvertToRelay, Build, SetInput 0 ?u, Kernel, GetOutput 0]"
    by (cases "run example_ops example_ext ?w [ITensor example_long_tensor]") auto
  from run_zero_copy_iff_aligned [OF run2] obtain evs2 where
    evs2: "trace w2 = trace ?w @ evs2"
    and c: "\<And>i t. SetInput i t \<in> set evs2 \<Longrightarrow> data_ptr t mod kAlignment \<noteq> 0"
    by blast
  from evs2 tr2 have "SetInput 0 ?u \<in> set evs2" by (auto simp: example_trace_empty)
  from c [OF this] run2 tr2 have "\<exists>r w' stack'.
      run example_ops example_ext ?w [ITensor example_long_tensor] = Some (r, w', stack') \<and>
      trace w' = [ConvertToRelay, Build, SetInput 0 ?u, Kernel, GetOutput 0] \<and>
      data_ptr ?u mod kAlignment \<noteq> 0" by (intro exI conjI)
  with first show ?thesis by (rule conjI)
qed

text \<open>
  C9. Every tensor that an invocation binds into the compiled runtime, by either
  function, has the element type float32: it is the conversion to float32 of the
  tensor of a runtime input of the cache entry (a declared input's value from the
  stack, or else the constant of a promoted value), whatever the element type of
  that tensor; and when the invocation reaches the kernel, every runtime input
  has been bound so. In the example that follows the theorem the input is an
  int64 tensor and the translated function is typed with int64.
\<close>

theorem run_binds_float32:
  assumes "run ops ext w stack = Some (r, w', stack')"
  shows "\<exists>evs. trace w' = trace w @ evs \<and>
      (\<forall>i t. SetInput i t \<in> set evs \<or> SetInputZeroCopy i t \<in> set evs \<longrightarrow>
         scalar_type t = kFloat \<and>
         i < length (input_values (the (m_cache (this w') (invocation_spec ext w stack)))) \<and>
         (\<exists>t0. resolve_input (m_subgraph (this w')) (invocation_bindings w stack)
                  (input_values (the (m_cache (this w') (invocation_spec ext w stack))) ! i)
                  = Some (ITensor t0) \<and>
               t = Tensor_to (to_allocate ext) t0 kFloat)) \<and>
      (Kernel \<in> set evs \<longrightarrow>
         (\<forall>j<length (input_values (the (m_cache (this w') (invocation_spec ext w stack)))).
            \<exists>t. scalar_type t = kFloat \<and> (SetInput j t \<in> set evs \<or> SetInputZeroCopy j t \<in> set evs)))"
proof -
  let ?vals = "input_values (the (m_cache (this w') (invocation_spec ext w stack)))"
  let ?g = "m_subgraph (this w')"
  let ?m = "invocation_bindings w stack"
  from run_events [OF assms] obtain pre binds post where
    tr: "trace w' = trace w @ pre @ binds @ post"
    and pre: "set pre \<subseteq> {ConvertToRelay, Build, Interpreter}"
    and bt: "bind_trace ext ?g ?m ?vals 0 binds"
    and post: "tail_events post"
    and full: "post \<noteq> [] \<longrightarrow> length binds = length ?vals"
    by blast
  have fl: "scalar_type (Tensor_to (to_allocate ext) t0 kFloat) = kFloat" for t0
    by (simp add: Tensor_to_def)
  have bound: "scalar_type t = kFloat \<and> i < length ?vals \<and>
         (\<exists>t0. resolve_input ?g ?m (?vals ! i) = Some (ITensor t0) \<and>
               t = Tensor_to (to_allocate ext) t0 kFloat)"
    if "SetInput i t \<in> set (pre @ binds @ post) \<or> SetInputZeroCopy i t \<in> set (pre @ binds @ post)" for i t
  proof -
    from that pre post obtain ev where ev: "ev \<in> set binds" "ev = SetInput i t \<or> ev = SetInputZeroCopy i t"
      by (auto simp: tail_events_def)
    from bind_trace_events [OF bt ev(1)] obtain j t0 where
      j: "j < length binds" "resolve_input ?g ?m (?vals ! j) = Some (ITensor t0)"
      "ev = bind_event ext (0 + j) t0" by blast
    from j(3) ev(2) bind_event_cases [of ext "0 + j" t0]
    have "i = j" "t = Tensor_to (to_allocate ext) t0 kFloat" by auto
    moreover from j(1) bt have "j < length ?vals" by (simp add: bind_trace_def)
    ultimately show ?thesis using j(2) fl by auto
  qed
  have all: "\<exists>t. scalar_type t = kFloat \<and>
      (SetInput j t \<in> set (pre @ binds @ post) \<or> SetInputZeroCopy j t \<in> set (pre @ binds @ post))"
    if k: "Kernel \<in> set (pre @ binds @ post)" and j: "j < length ?vals" for j
  proof -
    from k pre have "Kernel \<in> set binds \<or> Kernel \<in> set post" by auto
    moreover have "Kernel \<notin> set binds"
    proof
      assume "Kernel \<in> set binds"
      from bind_trace_events [OF bt this] obtain j t0 where "Kernel = bind_event ext (0 + j) t0" by blast
      with bind_event_cases [of ext "0 + j" t0] show False by auto
    qed
    ultimately have "post \<noteq> []" by auto
    with full j have jb: "j < length binds" by simp
    with bt obtain t0 where t0: "binds ! j = bind_event ext j t0" by (auto simp: bind_trace_def)
    from jb t0 have "bind_event ext j t0 \<in> set binds" by (metis nth_mem)
    with bind_event_cases [of ext j t0] fl [of t0] show ?thesis by auto
  qed
  show ?thesis
    apply (rule exI [of _ "pre @ binds @ post"])
    using tr bound all
    apply blast
    done
qed

theorem run_binds_float32_witness:
  "map_option fst
     (translation example_ops (example_world False ''aten::tanh'') [ITensor example_long_tensor])
   = Some (Inr (Function [Var 1 ''x1'' (TensorType [2, 2] (tvm_Int 64))]
             (Tuple [Call ''aten::tanh'' [Call ''aten::relu''
                [Var 1 ''x1'' (TensorType [2, 2] (tvm_Int 64))]]]))) \<and>
   (\<exists>r w' stack'.
      run example_ops example_ext (example_world False ''aten::tanh'') [ITensor example_long_tensor]
        = Some (r, w', stack') \<and>
      trace w' = [ConvertToRelay, Build,
        SetInput 0 \<lparr>scalar_type = kFloat, sizes = [2, 2], data_ptr = 129\<rparr>, Kernel, GetOutput 0] \<and>
      scalar_type \<lparr>scalar_type = kFloat, sizes = [2, 2], data_ptr = 129\<rparr> = kFloat \<and>
      0 < length (input_values (the (m_cache (this w')
            (invocation_spec example_ext (example_world False ''aten::tanh'')
               [ITensor example_long_tensor])))))"
proof -
  let ?w = "example_world False ''aten::tanh''"
  let ?t = "\<lparr>scalar_type = kFloat, sizes = [2, 2], data_ptr = 129\<rparr>"
  from example_run_long obtain r w' stack' where
    run: "run example_ops example_ext ?w [ITensor example_long_tensor] = Some (r, w', stack')"
    and tr: "trace w' = [ConvertToRelay, Build, SetInput 0 ?t, Kernel, GetOutput 0]"
    by (cases "run example_ops example_ext ?w [ITensor example_long_tensor]") auto
  from run_binds_float32 [OF run] obtain evs where
    evs: "trace w' = trace ?w @ evs"
    and b: "\<And>i t. SetInput i t \<in> set evs \<or> SetInputZeroCopy i t \<in> set evs \<Longrightarrow>
         scalar_type t = kFloat \<and>
         i < length (input_values (the (m_cache (this w') (invocation_spec example_ext ?w [ITensor example_long_tensor]))))"
    by blast
  from evs tr have "SetInput 0 ?t \<in> set evs" by (auto simp: example_trace_empty)
  with b [of 0 ?t] run tr example_translation_long show ?thesis by simp
qed

section \<open>The specialization cache\<close>

lemma no_translation_events:
  assumes "bind_trace ext g m vals i binds" and "tail_events post"
  shows "ConvertToRelay \<notin> set (binds @ post) \<and> Build \<notin> set (binds @ post)"
proof -
  have "ev \<noteq> ConvertToRelay \<and> ev \<noteq> Build" if "ev \<in> set binds" for ev
  proof -
    from bind_trace_events [OF assms(1) that] obtain j t where "ev = bind_event ext (i + j) t"
      by blast
    with bind_event_cases [of ext "i + j" t] show ?thesis by auto
  qed
  moreover have "ev \<noteq> ConvertToRelay \<and> ev \<noteq> Build" if "ev \<in> set post" for ev
    using assms(2) that by (auto simp: tail_events_def)
  ultimately show ?thesis by auto
qed

lemma run_hit_props:
  assumes "length (g_inputs (m_subgraph (this w))) \<le> length stack"
    and "m_cache (this w) (invocation_spec ext w stack) \<noteq> None"
    and "run ops ext w stack = Some (r, w', stack')"
  shows "this w' = this w \<and> length (modules w') = length (modules w) \<and>
         (\<exists>evs. trace w' = trace w @ evs \<and> ConvertToRelay \<notin> set evs \<and> Build \<notin> set evs)"
proof -
  from assms have ex: "execute_entry ext (invocation_spec ext w stack) (invocation_bindings w stack) w stack
      = (r, w', stack')"
    by (auto simp: run_unfold)
  from execute_entry_props [OF ex] obtain binds post where
    p: "this w' = this w" "length (modules w') = length (modules w)"
    "trace w' = trace w @ binds @ post"
    "bind_trace ext (m_subgraph (this w)) (invocation_bindings w stack)
       (input_values (the (m_cache (this w) (invocation_spec ext w stack)))) 0 binds"
    "tail_events post"
    by blast
  from no_translation_events [OF p(4) p(5)] p(1-3) show ?thesis by blast
qed

lemma run_miss_props:
  assumes "length (g_inputs (m_subgraph (this w))) \<le> length stack"
    and "m_cache (this w) (invocation_spec ext w stack) = None"
    and "translation ops w stack = Some (Inr f, g', vs)"
    and "run ops ext w stack = Some (r, w', stack')"
  shows "(\<exists>evs. trace w' = trace w @ ConvertToRelay # Build # evs \<and>
                ConvertToRelay \<notin> set evs \<and> Build \<notin> set evs) \<and>
         (\<exists>obj. m_cache (this w') = (m_cache (this w))(invocation_spec ext w stack \<mapsto> obj) \<and>
                (r = Inr () \<longrightarrow> kernel obj = Some (length (modules w)))) \<and>
         length (modules w) \<le> length (modules w') \<and>
         (r = Inr () \<longrightarrow> length (modules w') = Suc (length (modules w)))"
proof -
  let ?spec = "invocation_spec ext w stack"
  let ?tw = "translated_world ?spec g' vs w"
  obtain out w4 where b: "build_entry ext ?spec f ?tw = (out, w4)"
    by (cases "build_entry ext ?spec f ?tw")
  have tw: "trace ?tw = trace w @ [ConvertToRelay]" "modules ?tw = modules w"
    "m_cache (this ?tw) = (m_cache (this w))(?spec \<mapsto> default_TVMObject\<lparr>input_values := the vs\<rparr>)"
    by (simp_all add: translated_world_def)
  from build_entry_props [OF b] have
    tr4: "trace w4 = trace w @ [ConvertToRelay, Build]"
    and nr: "out \<noteq> Return"
    and len4: "length (modules w) \<le> length (modules w4)"
    and cache4: "m_cache (this w4) = m_cache (this ?tw) \<and> out \<noteq> Continue \<or>
          (\<exists>obj. m_cache (this w4) = (m_cache (this ?tw))(?spec \<mapsto> obj) \<and>
                 kernel obj = Some (length (modules w)) \<and>
                 length (modules w4) = Suc (length (modules w)))"
    by (auto simp: tw)
  from cache4 have c4: "\<exists>obj. m_cache (this w4) = (m_cache (this w))(?spec \<mapsto> obj) \<and>
      (out = Continue \<longrightarrow> kernel obj = Some (length (modules w)))"
    and l4: "out = Continue \<longrightarrow> length (modules w4) = Suc (length (modules w))"
    by (auto simp: tw)
  from run_translated [OF assms(1-3) b] assms(4) nr
  consider (throw) e where "out = Throw e" "r = Inl e" "w' = w4"
    | (continue) "out = Continue"
        "execute_entry ext ?spec (invocation_bindings w stack) w4 stack = (r, w', stack')"
    by (cases out) auto
  then show ?thesis
  proof cases
    case throw
    with tr4 len4 c4 show ?thesis by auto
  next
    case continue
    from execute_entry_props [OF continue(2)] obtain binds post where
      p: "this w' = this w4" "length (modules w') = length (modules w4)"
      "trace w' = trace w4 @ binds @ post"
      "bind_trace ext (m_subgraph (this w4)) (invocation_bindings w stack)
         (input_values (the (m_cache (this w4) ?spec))) 0 binds"
      "tail_events post"
      by blast
    from no_translation_events [OF p(4) p(5)] p(3) tr4
    have "\<exists>evs. trace w' = trace w @ ConvertToRelay # Build # evs \<and>
                ConvertToRelay \<notin> set evs \<and> Build \<notin> set evs"
      by (intro exI [of _ "binds @ post"]) simp
    with c4 l4 continue(1) p(1,2) len4 show ?thesis by auto
  qed
qed

lemma run_after_run:
  assumes "(case run ops ext w stack of Some (Inr u, w', stack') \<Rightarrow> True | _ \<Rightarrow> False)"
  shows "\<exists>stack'. run ops ext w stack = Some (Inr (), after_run ops ext w stack, stack')"
proof (cases "run ops ext w stack")
  case None
  with assms show ?thesis by simp
next
  case (Some x)
  obtain r w' stack' where x: "x = (r, w', stack')" by (cases x)
  show ?thesis using assms Some x by (cases r) (auto simp: after_run_def)
qed

lemma translation_succeeds:
  assumes "(case translation ops w stack of Some (Inr f, g, vs) \<Rightarrow> True | _ \<Rightarrow> False)"
  shows "\<exists>f g vs. translation ops w stack = Some (Inr f, g, vs)"
proof (cases "translation ops w stack")
  case None
  with assms show ?thesis by simp
next
  case (Some x)
  obtain res g vs where x: "x = (res, g, vs)" by (cases x)
  show ?thesis using assms Some x by (cases res) auto
qed

lemma example_first:
  "(case translation example_ops (example_world False ''aten::tanh'') [ITensor example_tensor] of
      Some (Inr f, g, vs) \<Rightarrow> True | _ \<Rightarrow> False)"
  "(case run example_ops example_ext (example_world False ''aten::tanh'') [ITensor example_tensor] of
      Some (Inr u, w', stack') \<Rightarrow> True | _ \<Rightarrow> False)"
  by code_simp+

lemma example_second:
  "length (g_inputs (m_subgraph (this example_world1))) \<le> length [ITensor example_unaligned_tensor]"
  "invocation_spec example_ext example_world1 [ITensor example_unaligned_tensor]
     = invocation_spec example_ext (example_world False ''aten::tanh'') [ITensor example_tensor]"
  "(case run example_ops example_ext example_world1 [ITensor example_unaligned_tensor] of
      Some (Inr u, w', stack') \<Rightarrow> True | _ \<Rightarrow> False)"
  by code_simp+

lemma example_third:
  "length (g_inputs (m_subgraph (this example_world2))) \<le> length [ITensor example_wide_tensor]"
  "invocation_spec example_ext example_world2 [ITensor example_wide_tensor]
     \<noteq> invocation_spec example_ext (example_world False ''aten::tanh'') [ITensor example_tensor]"
  "(case translation example_ops example_world2 [ITensor example_wide_tensor] of
      Some (Inr f, g, vs) \<Rightarrow> True | _ \<Rightarrow> False)"
  "(case run example_ops example_ext example_world2 [ITensor example_wide_tensor] of
      Some (Inr u, w', stack') \<Rightarrow> True | _ \<Rightarrow> False)"
  by code_simp+

text \<open>
  C3. Take a unit whose cache has no entry for the signature of a first
  invocation, whose translation succeeds. A second invocation with the same
  signature translates nothing and builds nothing and leaves the cache as it is:
  over the two invocations the translation and the build are each called once. A
  third invocation with another signature, not in the cache either and whose
  translation succeeds, calls each once more; its entry is stored under its own
  signature, the entry of the first signature is unchanged, and when the first
  and the third invocation return normally the two entries hold functions of two
  different runtime modules.
\<close>

theorem run_cache_per_signature:
  assumes "length (g_inputs (m_subgraph (this w))) \<le> length stack1"
    and "m_cache (this w) (invocation_spec ext w stack1) = None"
    and "translation ops w stack1 = Some (Inr f1, g1, vs1)"
    and "run ops ext w stack1 = Some (r1, w1, stack1')"
    and "length (g_inputs (m_subgraph (this w1))) \<le> length stack2"
    and "invocation_spec ext w1 stack2 = invocation_spec ext w stack1"
    and "run ops ext w1 stack2 = Some (r2, w2, stack2')"
    and "length (g_inputs (m_subgraph (this w2))) \<le> length stack3"
    and "invocation_spec ext w2 stack3 \<noteq> invocation_spec ext w stack1"
    and "m_cache (this w) (invocation_spec ext w2 stack3) = None"
    and "translation ops w2 stack3 = Some (Inr f3, g3, vs3)"
    and "run ops ext w2 stack3 = Some (r3, w3, stack3')"
  shows "count_list (trace w2) ConvertToRelay = count_list (trace w) ConvertToRelay + 1 \<and>
         count_list (trace w2) Build = count_list (trace w) Build + 1 \<and>
         m_cache (this w1) (invocation_spec ext w stack1) \<noteq> None \<and>
         m_cache (this w2) = m_cache (this w1) \<and>
         count_list (trace w3) ConvertToRelay = count_list (trace w2) ConvertToRelay + 1 \<and>
         count_list (trace w3) Build = count_list (trace w2) Build + 1 \<and>
         m_cache (this w3) (invocation_spec ext w2 stack3) \<noteq> None \<and>
         m_cache (this w3) (invocation_spec ext w stack1)
           = m_cache (this w2) (invocation_spec ext w stack1) \<and>
         (r1 = Inr () \<and> r3 = Inr () \<longrightarrow>
            (\<exists>h1 h3. kernel (the (m_cache (this w3) (invocation_spec ext w stack1))) = Some h1 \<and>
                     kernel (the (m_cache (this w3) (invocation_spec ext w2 stack3))) = Some h3 \<and>
                     h1 \<noteq> h3))"
proof -
  let ?k = "invocation_spec ext w stack1"
  let ?k3 = "invocation_spec ext w2 stack3"
  from run_miss_props [OF assms(1-4)] obtain evs1 obj1 where
    t1: "trace w1 = trace w @ ConvertToRelay # Build # evs1"
      "ConvertToRelay \<notin> set evs1" "Build \<notin> set evs1"
    and c1: "m_cache (this w1) = (m_cache (this w))(?k \<mapsto> obj1)"
      "r1 = Inr () \<longrightarrow> kernel obj1 = Some (length (modules w))"
    and m1: "r1 = Inr () \<longrightarrow> length (modules w1) = Suc (length (modules w))"
    by blast
  have hit2: "m_cache (this w1) (invocation_spec ext w1 stack2) \<noteq> None"
    using c1(1) assms(6) by simp
  from run_hit_props [OF assms(5) hit2 assms(7)] obtain evs2 where
    w2: "this w2 = this w1" "length (modules w2) = length (modules w1)"
    and t2: "trace w2 = trace w1 @ evs2" "ConvertToRelay \<notin> set evs2" "Build \<notin> set evs2"
    by blast
  have miss3: "m_cache (this w2) ?k3 = None"
    using w2(1) c1(1) assms(9,10) by simp
  from run_miss_props [OF assms(8) miss3 assms(11,12)] obtain evs3 obj3 where
    t3: "trace w3 = trace w2 @ ConvertToRelay # Build # evs3"
      "ConvertToRelay \<notin> set evs3" "Build \<notin> set evs3"
    and c3: "m_cache (this w3) = (m_cache (this w2))(?k3 \<mapsto> obj3)"
      "r3 = Inr () \<longrightarrow> kernel obj3 = Some (length (modules w2))"
    by blast
  have "count_list (trace w2) ConvertToRelay = count_list (trace w) ConvertToRelay + 1"
    "count_list (trace w2) Build = count_list (trace w) Build + 1"
    using t1 t2 by simp_all
  moreover have "count_list (trace w3) ConvertToRelay = count_list (trace w2) ConvertToRelay + 1"
    "count_list (trace w3) Build = count_list (trace w2) Build + 1"
    using t3 by simp_all
  moreover have "m_cache (this w1) ?k \<noteq> None" "m_cache (this w2) = m_cache (this w1)"
    using c1(1) w2(1) by simp_all
  moreover have "m_cache (this w3) ?k3 \<noteq> None" "m_cache (this w3) ?k = m_cache (this w2) ?k"
    using c3(1) assms(9) by simp_all
  moreover have "\<exists>h1 h3. kernel (the (m_cache (this w3) ?k)) = Some h1 \<and>
                     kernel (the (m_cache (this w3) ?k3)) = Some h3 \<and> h1 \<noteq> h3"
    if "r1 = Inr ()" "r3 = Inr ()"
  proof -
    have "kernel (the (m_cache (this w3) ?k)) = Some (length (modules w))"
      using c3(1) assms(9) w2(1) c1 that by simp
    moreover have "kernel (the (m_cache (this w3) ?k3)) = Some (length (modules w2))"
      using c3 that by simp
    moreover have "length (modules w) \<noteq> length (modules w2)"
      using m1 w2(2) that by simp
    ultimately show ?thesis by blast
  qed
  ultimately show ?thesis by blast
qed

theorem run_cache_per_signature_witness:
  "count_list (trace example_world2) ConvertToRelay = 1 \<and>
   count_list (trace example_world2) Build = 1 \<and>
   m_cache (this example_world2) = m_cache (this example_world1) \<and>
   count_list (trace example_world3) ConvertToRelay = 2 \<and>
   count_list (trace example_world3) Build = 2 \<and>
   m_cache (this example_world3) (example_signature [ITensor example_wide_tensor]) \<noteq> None \<and>
   m_cache (this example_world3) (example_signature [ITensor example_tensor])
     = m_cache (this example_world2) (example_signature [ITensor example_tensor]) \<and>
   (\<exists>h1 h3.
      kernel (the (m_cache (this example_world3) (example_signature [ITensor example_tensor])))
        = Some h1 \<and>
      kernel (the (m_cache (this example_world3) (example_signature [ITensor example_wide_tensor])))
        = Some h3 \<and>
      h1 \<noteq> h3)"
proof -
  let ?w = "example_world False ''aten::tanh''"
  have l1: "length (g_inputs (m_subgraph (this ?w))) \<le> length [ITensor example_tensor]"
    by (simp add: example_world_def example_graph_def)
  from translation_succeeds [OF example_first(1)] obtain f1 g1 vs1 where
    t1: "translation example_ops ?w [ITensor example_tensor] = Some (Inr f1, g1, vs1)" by blast
  from run_after_run [OF example_first(2)] obtain s1 where
    r1: "run example_ops example_ext ?w [ITensor example_tensor] = Some (Inr (), example_world1, s1)"
    by (auto simp: example_world1_def)
  from run_after_run [OF example_second(3)] obtain s2 where
    r2: "run example_ops example_ext example_world1 [ITensor example_unaligned_tensor]
           = Some (Inr (), example_world2, s2)"
    by (auto simp: example_world2_def)
  from translation_succeeds [OF example_third(3)] obtain f3 g3 vs3 where
    t3: "translation example_ops example_world2 [ITensor example_wide_tensor]
           = Some (Inr f3, g3, vs3)"
    by blast
  from run_after_run [OF example_third(4)] obtain s3 where
    r3: "run example_ops example_ext example_world2 [ITensor example_wide_tensor]
           = Some (Inr (), example_world3, s3)"
    by (auto simp: example_world3_def)
  have k3: "invocation_spec example_ext example_world2 [ITensor example_wide_tensor]
      = example_signature [ITensor example_wide_tensor]"
    and k1: "invocation_spec example_ext ?w [ITensor example_tensor]
      = example_signature [ITensor example_tensor]"
    by code_simp+
  from run_cache_per_signature [OF l1 example_world_miss t1 r1 example_second(1,2) r2
        example_third(1,2) example_world_miss t3 r3]
  show ?thesis
    by (auto simp: example_trace_empty k1 k3)
qed

end
